theory Spec2Isabelle
  imports Complex_Main
begin

section \<open>The gauge-driven mixing engine of love-pods (src/App.tsx)\<close>

text \<open>
  A shallow embedding of the engine in \<^verbatim>\<open>src/App.tsx\<close>: the configuration, the
  mutable refs (\<^verbatim>\<open>audioRef\<close>, \<^verbatim>\<open>stateRef\<close>, \<^verbatim>\<open>musicBuffersRef\<close>), the React state
  the engine writes, and the functions \<^verbatim>\<open>startMusic\<close>, \<^verbatim>\<open>scheduleMusicAt17s\<close>,
  \<^verbatim>\<open>releaseLoop\<close>, \<^verbatim>\<open>handleStop\<close> and \<^verbatim>\<open>gameLoop\<close>.

  JavaScript numbers are IEEE doubles. The gauge, the gain targets and the delays are
  sums, products and clamps, which rounding moves by a last digit at most: they are
  modelled in \<^typ>\<open>real\<close>, exactly. The loop boundary of \<^verbatim>\<open>releaseLoop\<close> goes through
  \<^verbatim>\<open>Math.floor\<close>, where a last digit decides between one loop and the next: there each
  operation is rounded to binary64 (\<open>double\<close> below). The Web Audio objects live in the browser;
  the model records what the program asks of them: a source node keeps the arguments of
  \<^verbatim>\<open>start\<close>, \<^verbatim>\<open>stop\<close> and its \<^verbatim>\<open>loop\<close> fields, a gain parameter keeps the list of
  automation calls in the order they were made. Rendering (wave paths, bubbles, the
  liquid transform) is left out.
\<close>

subsection \<open>Rounding to binary64\<close>

text \<open>
  \<open>double x\<close> is the binary64 number nearest to \<open>x\<close>, ties to the even significand: with
  \<open>2 ^ E \<le> \<bar>x\<bar> < 2 ^ (E + 1)\<close> the significand \<open>x / 2 ^ (E - 52)\<close> is rounded to an
  integer of 53 bits. The exponent range is not modelled (no overflow, no subnormal
  numbers): the arguments here are seconds of an audio clock. At a given number the
  rounding is computed with the exponent supplied (lemma \<open>double_eval\<close>).
\<close>

definition roundEven :: "real \<Rightarrow> int" where
  "roundEven y =
    (let f = \<lfloor>y\<rfloor>; r = y - of_int f
     in if r < 1/2 then f else if r > 1/2 then f + 1 else if even f then f else f + 1)"

definition double :: "real \<Rightarrow> real" where
  "double x =
    (if x = 0 then 0
     else let e = \<lfloor>log 2 \<bar>x\<bar>\<rfloor> - 52
          in of_int (roundEven (x / 2 powi e)) * 2 powi e)"

subsection \<open>Configuration\<close>

record config =
  loopEndTime :: real
  vocalStartTime :: real
  gaugeSpeed :: real
  vocalGaugeSpeed :: real
  decayRate :: real
  fadeOutTime :: real
  inputKeys :: "string list"

definition CONFIG :: config where
  "CONFIG = \<lparr> loopEndTime = 7.0, vocalStartTime = 17.0, gaugeSpeed = 0.15,
              vocalGaugeSpeed = 0.15, decayRate = 0.5, fadeOutTime = 10.0,
              inputKeys = ['' '', ''Enter''] \<rparr>"

subsection \<open>Web Audio objects\<close>

datatype ctxState = Running | Suspended | Closed

record audioContext =
  currentTime :: real
  cstate :: ctxState

record audioBuffer =
  bufferName :: string
  sampleRate :: real

datatype gainRole = Clock | Other | Bass | Drums | Vocals

text \<open>
  An \<^verbatim>\<open>AudioBufferSourceNode\<close>. \<open>startedAt\<close> is the argument of \<^verbatim>\<open>start(when)\<close>,
  \<open>dest\<close> the gain node given to \<^verbatim>\<open>connect\<close>, \<open>stopped\<close> whether \<^verbatim>\<open>stop()\<close> took effect.
\<close>

record bufferSource =
  buffer :: audioBuffer
  loop :: bool
  loopStart :: real
  loopEnd :: real
  dest :: "gainRole option"
  startedAt :: "real option"
  stopped :: bool

text \<open>
  The automation calls of an \<^verbatim>\<open>AudioParam\<close>: \<^verbatim>\<open>setValueAtTime(value, startTime)\<close>,
  \<^verbatim>\<open>linearRampToValueAtTime(value, endTime)\<close> and
  \<^verbatim>\<open>setTargetAtTime(target, startTime, timeConstant)\<close>.
\<close>

datatype automation =
    SetValueAtTime real real
  | LinearRampToValueAtTime real real
  | SetTargetAtTime real real real

fun eventTime :: "automation \<Rightarrow> real" where
  "eventTime (SetValueAtTime v t) = t"
| "eventTime (LinearRampToValueAtTime v t) = t"
| "eventTime (SetTargetAtTime v t c) = t"

text \<open>
  A \<^verbatim>\<open>GainNode\<close>: \<open>gval\<close> is what \<^verbatim>\<open>gain.value\<close> reads (and what a direct assignment
  writes), \<open>events\<close> the scheduled automation in call order.
\<close>

record gainNode =
  gval :: real
  events :: "automation list"

definition cancelScheduledValues :: "real \<Rightarrow> gainNode \<Rightarrow> gainNode" where
  "cancelScheduledValues t g = g\<lparr> events := filter (\<lambda>e. eventTime e < t) (events g) \<rparr>"

definition setValueAtTime :: "real \<Rightarrow> real \<Rightarrow> gainNode \<Rightarrow> gainNode" where
  "setValueAtTime v t g = g\<lparr> events := events g @ [SetValueAtTime v t] \<rparr>"

definition linearRampToValueAtTime :: "real \<Rightarrow> real \<Rightarrow> gainNode \<Rightarrow> gainNode" where
  "linearRampToValueAtTime v t g = g\<lparr> events := events g @ [LinearRampToValueAtTime v t] \<rparr>"

definition setTargetAtTime :: "real \<Rightarrow> real \<Rightarrow> real \<Rightarrow> gainNode \<Rightarrow> gainNode" where
  "setTargetAtTime v t c g = g\<lparr> events := events g @ [SetTargetAtTime v t c] \<rparr>"

text \<open>
  \<^verbatim>\<open>try { src?.stop(); } catch {}\<close>: \<^verbatim>\<open>stop\<close> on a source that was never started throws
  \<^verbatim>\<open>InvalidStateError\<close>, which the program swallows.
\<close>

definition stopSource :: "bufferSource \<Rightarrow> bufferSource" where
  "stopSource s = (if startedAt s = None then s else s\<lparr> stopped := True \<rparr>)"

subsection \<open>The refs and the React state\<close>

record audio =
  ctx :: "nat option"
  clockSrc :: "nat option"
  otherSrc :: "nat option"
  bassSrc :: "nat option"
  drumsSrc :: "nat option"
  vocalsSrc :: "nat option"
  gainClock :: "gainNode option"
  gainOther :: "gainNode option"
  gainBass :: "gainNode option"
  gainDrums :: "gainNode option"
  gainVocals :: "gainNode option"
  startTime :: real

record musicSet =
  other :: "audioBuffer option"
  bass :: "audioBuffer option"
  drums :: "audioBuffer option"
  vocals :: "audioBuffer option"

record gstate =
  gauge :: real
  visualGauge :: real
  isLooping :: bool
  vocalActive :: bool
  isLeaning :: bool

datatype stageT = Stage0 | Stage1 | Stage2

text \<open>
  The two \<^verbatim>\<open>setTimeout\<close> callbacks of the engine: the one of \<^verbatim>\<open>scheduleMusicAt17s\<close>
  and the one of \<^verbatim>\<open>handleStop\<close>, which closes over the \<^verbatim>\<open>ctx\<close> it read when the stop
  was requested. \<open>due\<close> is the wall-clock time in milliseconds from which the callback may
  run.
\<close>

datatype callback = ActivateMix | StopReset nat

record timer =
  due :: real
  cb :: callback

text \<open>
  The whole program state. Audio contexts and source nodes are objects reached by
  reference (a callback may hold one that \<^verbatim>\<open>audioRef\<close> no longer names), so they live in
  two stores indexed by address; \<^verbatim>\<open>audioRef\<close> holds addresses. The gain nodes are only
  ever reached through \<^verbatim>\<open>audioRef.current\<close> in the functions modelled here and are kept
  there by value. \<open>wall\<close> is the wall clock in milliseconds, \<open>timers\<close> the pending
  \<^verbatim>\<open>setTimeout\<close> callbacks.
\<close>

record world =
  audioRef :: audio
  contexts :: "nat \<Rightarrow> audioContext"
  sources :: "nat \<Rightarrow> bufferSource"
  nextSource :: nat
  buffersRef :: "audioBuffer option"
  musicBuffersRef :: "string \<Rightarrow> musicSet option"
  selectedMusicRef :: string
  selectedMusic :: string
  stateRef :: gstate
  isReady :: bool
  isLoading :: bool
  isPaused :: bool
  statusText :: string
  stage :: stageT
  errorMessage :: string
  timers :: "timer list"
  wall :: real

definition setTimeout :: "callback \<Rightarrow> real \<Rightarrow> world \<Rightarrow> world" where
  "setTimeout f ms w = w\<lparr> timers := timers w @ [\<lparr> due = wall w + ms, cb = f \<rparr>] \<rparr>"

definition emptyAudio :: audio where
  "emptyAudio = \<lparr> ctx = None, clockSrc = None, otherSrc = None, bassSrc = None,
      drumsSrc = None, vocalsSrc = None, gainClock = None, gainOther = None,
      gainBass = None, gainDrums = None, gainVocals = None, startTime = 0 \<rparr>"

text \<open>\<^verbatim>\<open>selectedMusicRef.current || selectedMusic\<close>: the empty string is falsy.\<close>

definition currentSelected :: "world \<Rightarrow> string" where
  "currentSelected w = (if selectedMusicRef w \<noteq> [] then selectedMusicRef w else selectedMusic w)"

subsection \<open>startMusic\<close>

definition stopOpt :: "nat option \<Rightarrow> (nat \<Rightarrow> bufferSource) \<Rightarrow> (nat \<Rightarrow> bufferSource)" where
  "stopOpt r ss = (case r of None \<Rightarrow> ss | Some i \<Rightarrow> ss(i := stopSource (ss i)))"

definition startMusic :: "nat \<Rightarrow> audioBuffer \<Rightarrow> world \<Rightarrow> world" where
  "startMusic c clockBuf w =
    (case gainClock (audioRef w) of
       None \<Rightarrow> w
     | Some _ \<Rightarrow>
        let ss = stopOpt (clockSrc (audioRef w)) (sources w);
            loopStartSample = (0::real);
            loopEndSample = of_int \<lfloor>loopEndTime CONFIG * sampleRate clockBuf\<rfloor>;
            now = currentTime (contexts w c);
            i = nextSource w;
            src = \<lparr> buffer = clockBuf, loop = True,
                    loopStart = loopStartSample / sampleRate clockBuf,
                    loopEnd = loopEndSample / sampleRate clockBuf,
                    dest = Some Clock, startedAt = Some now, stopped = False \<rparr>
        in w\<lparr> sources := ss(i := src),
              nextSource := Suc i,
              audioRef := (audioRef w)\<lparr> clockSrc := Some i, startTime := now \<rparr>,
              isReady := True,
              stage := Stage1,
              statusText := ''SYNC TIME (HOLD SPACE)'' \<rparr>)"

subsection \<open>initAudio\<close>

text \<open>
  The path of \<^verbatim>\<open>initAudio\<close> on which every load succeeds. The function awaits the
  loader; the model takes what the loader answered as arguments (\<open>clockBuf\<close> for
  \<^verbatim>\<open>/onlyclock.wav\<close>, \<open>selectedBuffers\<close> for the selected folder) and \<open>c\<close>, the address of
  the \<^verbatim>\<open>new AudioContext()\<close>, and runs the body in one piece. The background loads of the
  other folders and the loading progress are left out.
\<close>

definition newGain :: gainNode where
  "newGain = \<lparr> gval = 0, events = [] \<rparr>"

definition initAudio :: "nat \<Rightarrow> audioBuffer \<Rightarrow> musicSet \<Rightarrow> world \<Rightarrow> world" where
  "initAudio c clockBuf selectedBuffers w =
    (if isLoading w then w
     else if currentSelected w = [] then w\<lparr> errorMessage := ''No music selected'' \<rparr>
     else
       let cs = (case ctx (audioRef w) of
                   None \<Rightarrow> contexts w
                 | Some old \<Rightarrow> (contexts w)(old := (contexts w old)\<lparr> cstate := Closed \<rparr>));
           w1 = w\<lparr> contexts := cs(c := \<lparr> currentTime = 0, cstate = Running \<rparr>),
                  buffersRef := Some clockBuf,
                  musicBuffersRef := (musicBuffersRef w)(currentSelected w := Some selectedBuffers),
                  audioRef := \<lparr> ctx = Some c, clockSrc = None, otherSrc = None, bassSrc = None,
                     drumsSrc = None, vocalsSrc = None, gainClock = Some newGain,
                     gainOther = Some newGain, gainBass = Some newGain, gainDrums = Some newGain,
                     gainVocals = Some newGain, startTime = 0 \<rparr> \<rparr>
       in (startMusic c clockBuf w1)\<lparr> isLoading := False \<rparr>)"

subsection \<open>scheduleMusicAt17s\<close>

text \<open>The local \<^verbatim>\<open>createSrc\<close>: no source for a missing buffer, else a node bound to its
  gain and started at \<^verbatim>\<open>musicStartAt\<close>.\<close>

definition createSrc :: "real \<Rightarrow> audioBuffer option \<Rightarrow> gainRole \<Rightarrow> world \<Rightarrow> nat option \<times> world" where
  "createSrc musicStartAt buf gain w =
    (case buf of
       None \<Rightarrow> (None, w)
     | Some b \<Rightarrow>
        let i = nextSource w;
            src = \<lparr> buffer = b, loop = False, loopStart = 0, loopEnd = 0,
                    dest = Some gain, startedAt = Some musicStartAt, stopped = False \<rparr>
        in (Some i, w\<lparr> sources := (sources w)(i := src), nextSource := Suc i \<rparr>))"

definition scheduleMusicAt17s :: "nat \<Rightarrow> real \<Rightarrow> world \<Rightarrow> world" where
  "scheduleMusicAt17s c musicStartAt w =
    (case (gainOther (audioRef w), gainBass (audioRef w), gainDrums (audioRef w),
           gainVocals (audioRef w)) of
       (Some gOther, Some gBass, Some gDrums, Some gVocals) \<Rightarrow>
         (case musicBuffersRef w (currentSelected w) of
            None \<Rightarrow> w\<lparr> errorMessage := ''Failed to load music: '' @ currentSelected w \<rparr>
          | Some currentMusic \<Rightarrow>
             (case other currentMusic of
                None \<Rightarrow> w\<lparr> errorMessage := ''Failed to load music: '' @ currentSelected w \<rparr>
              | Some _ \<Rightarrow>
                 let (o1, w1) = createSrc musicStartAt (other currentMusic) Other w;
                     (b1, w2) = createSrc musicStartAt (bass currentMusic) Bass w1;
                     (d1, w3) = createSrc musicStartAt (drums currentMusic) Drums w2;
                     (v1, w4) = createSrc musicStartAt (vocals currentMusic) Vocals w3;
                     w5 = w4\<lparr> audioRef := (audioRef w4)\<lparr>
                            otherSrc := o1, bassSrc := b1, drumsSrc := d1, vocalsSrc := v1,
                            gainOther := Some (setValueAtTime 1.0 musicStartAt gOther) \<rparr> \<rparr>;
                     delay = max 0 (musicStartAt - currentTime (contexts w5 c))
                 in setTimeout ActivateMix (delay * 1000) w5))
     | _ \<Rightarrow> w)"

subsection \<open>releaseLoop\<close>

text \<open>
  \<^verbatim>\<open>currentLoopEnd\<close> as \<^verbatim>\<open>releaseLoop\<close> computes it from \<^verbatim>\<open>startTime\<close> and \<^verbatim>\<open>now\<close>:
  \<^verbatim>\<open>elapsed = now - startTime\<close>, then
  \<^verbatim>\<open>startTime + (Math.floor(elapsed / CONFIG.loopEndTime) + 1) * CONFIG.loopEndTime\<close>, each
  of the five operations rounded.
\<close>

definition currentLoopEnd :: "real \<Rightarrow> real \<Rightarrow> real" where
  "currentLoopEnd startTime' now =
    (let elapsed = double (now - startTime')
     in double (startTime'
          + double (double (of_int \<lfloor>double (elapsed / loopEndTime CONFIG)\<rfloor> + 1)
              * loopEndTime CONFIG)))"

definition releaseLoop :: "world \<Rightarrow> world" where
  "releaseLoop w =
    (case ctx (audioRef w) of
       None \<Rightarrow> w
     | Some c \<Rightarrow>
        (case clockSrc (audioRef w) of
           None \<Rightarrow> w
         | Some i \<Rightarrow>
            let w1 = w\<lparr> sources := (sources w)(i := (sources w i)\<lparr> loop := False \<rparr>),
                        stateRef := (stateRef w)\<lparr> isLooping := False \<rparr>,
                        statusText := ''SYNC COMPLETE...'' \<rparr>;
                now = currentTime (contexts w1 c);
                loopEndTime' = currentLoopEnd (startTime (audioRef w)) now;
                musicStartTime = double (loopEndTime' + vocalStartTime CONFIG)
            in scheduleMusicAt17s c musicStartTime w1))"

subsection \<open>handleStop\<close>

definition fadeGain :: "real \<Rightarrow> real \<Rightarrow> gainNode \<Rightarrow> gainNode" where
  "fadeGain now fade g =
     linearRampToValueAtTime 0 (now + fade)
       (setValueAtTime (gval g) now (cancelScheduledValues now g))"

text \<open>The body of the \<^verbatim>\<open>setTimeout\<close> callback of \<^verbatim>\<open>handleStop\<close>; \<open>c\<close> is the context the
  closure captured.\<close>

definition stopReset :: "nat \<Rightarrow> world \<Rightarrow> world" where
  "stopReset c w =
     w\<lparr> sources := stopOpt (vocalsSrc (audioRef w)) (stopOpt (drumsSrc (audioRef w))
                     (stopOpt (bassSrc (audioRef w)) (stopOpt (otherSrc (audioRef w))
                       (stopOpt (clockSrc (audioRef w)) (sources w))))),
        contexts := (contexts w)(c := (contexts w c)\<lparr> cstate := Closed \<rparr>),
        stateRef := (stateRef w)\<lparr> isLooping := True, vocalActive := False,
                                  gauge := 0, visualGauge := 0 \<rparr>,
        isReady := False,
        stage := Stage0,
        statusText := ''DISCONNECTED'',
        isPaused := False,
        isLoading := False,
        audioRef := emptyAudio \<rparr>"

definition handleStop :: "world \<Rightarrow> world" where
  "handleStop w =
    (case ctx (audioRef w) of
       None \<Rightarrow> w
     | Some c \<Rightarrow>
        (case gainClock (audioRef w) of
           None \<Rightarrow> w
         | Some _ \<Rightarrow>
            let now = currentTime (contexts w c);
                fade = fadeOutTime CONFIG;
                w1 = w\<lparr> audioRef := (audioRef w)\<lparr>
                        gainClock := map_option (fadeGain now fade) (gainClock (audioRef w)),
                        gainOther := map_option (fadeGain now fade) (gainOther (audioRef w)),
                        gainBass := map_option (fadeGain now fade) (gainBass (audioRef w)),
                        gainDrums := map_option (fadeGain now fade) (gainDrums (audioRef w)),
                        gainVocals := map_option (fadeGain now fade) (gainVocals (audioRef w)) \<rparr> \<rparr>
            in setTimeout (StopReset c) (fade * 1000) w1))"

subsection \<open>The timer callback of scheduleMusicAt17s\<close>

definition activateMix :: "world \<Rightarrow> world" where
  "activateMix w =
     w\<lparr> stateRef := (stateRef w)\<lparr> vocalActive := True, gauge := 0 \<rparr>,
        stage := Stage2,
        statusText := ''MUSIC ACTIVE'' \<rparr>"

fun runCallback :: "callback \<Rightarrow> world \<Rightarrow> world" where
  "runCallback ActivateMix w = activateMix w"
| "runCallback (StopReset c) w = stopReset c w"

subsection \<open>gameLoop\<close>

text \<open>The block \<^verbatim>\<open>// Input Logic\<close>: the gauge update and its clamp.\<close>

definition inputLogic :: "world \<Rightarrow> world" where
  "inputLogic w =
    (let s = stateRef w;
         currentGaugeSpeed = (if vocalActive s then vocalGaugeSpeed CONFIG else gaugeSpeed CONFIG);
         g1 = (if isLeaning s then gauge s + currentGaugeSpeed else gauge s - decayRate CONFIG);
         g2 = (if g1 < 0 then 0 else g1);
         g3 = (if g2 > 100 then 100 else g2)
     in w\<lparr> stateRef := s\<lparr> gauge := g3 \<rparr> \<rparr>)"

text \<open>The stem volumes of the third branch: \<open>(bassVol, drumVol, vocalVol)\<close>.\<close>

definition stemVolumes :: "real \<Rightarrow> real \<times> real \<times> real" where
  "stemVolumes g =
    (if g \<le> 20 then (g / 20, 0, 0)
     else if g \<le> 40 then (1.0, (g - 20) / 20, 0)
     else (1.0, 1.0, (g - 40) / 60))"

text \<open>The block \<^verbatim>\<open>if (ctx && gainClock) { ... }\<close>; returns \<^verbatim>\<open>visualLevel\<close> with the
  state.\<close>

definition audioControl :: "world \<Rightarrow> real \<times> world" where
  "audioControl w =
    (let g = gauge (stateRef w) in
     case ctx (audioRef w) of
       None \<Rightarrow> (0, w)
     | Some c \<Rightarrow>
        (case gainClock (audioRef w) of
           None \<Rightarrow> (0, w)
         | Some _ \<Rightarrow>
            if isLooping (stateRef w) then
              let w1 = (if g \<ge> 100 then releaseLoop w else w);
                  now = currentTime (contexts w1 c)
              in (g / 100,
                  w1\<lparr> audioRef := (audioRef w1)\<lparr> gainClock :=
                        map_option (setTargetAtTime (g / 100) now 0.05) (gainClock (audioRef w1)) \<rparr> \<rparr>)
            else if \<not> vocalActive (stateRef w) then
              let now = currentTime (contexts w c)
              in (1.0,
                  w\<lparr> audioRef := (audioRef w)\<lparr> gainClock :=
                        map_option (setTargetAtTime 1.0 now 0.05) (gainClock (audioRef w)) \<rparr> \<rparr>)
            else
              let now = currentTime (contexts w c);
                  (bassVol, drumVol, vocalVol) = stemVolumes g
              in (g / 100,
                  w\<lparr> audioRef := (audioRef w)\<lparr>
                        gainClock := map_option (setTargetAtTime 1.0 now 0.05) (gainClock (audioRef w)),
                        gainBass := map_option (setTargetAtTime bassVol now 0.05) (gainBass (audioRef w)),
                        gainDrums := map_option (setTargetAtTime drumVol now 0.05) (gainDrums (audioRef w)),
                        gainVocals := map_option (setTargetAtTime vocalVol now 0.05) (gainVocals (audioRef w)) \<rparr> \<rparr>)))"

definition visualUpdate :: "real \<Rightarrow> world \<Rightarrow> world" where
  "visualUpdate visualLevel w =
     w\<lparr> stateRef := (stateRef w)\<lparr> visualGauge :=
           visualGauge (stateRef w) + (visualLevel - visualGauge (stateRef w)) * 0.1 \<rparr> \<rparr>"

definition gameLoop :: "real \<Rightarrow> world \<Rightarrow> world" where
  "gameLoop time w = (let (visualLevel, w1) = audioControl (inputLogic w) in visualUpdate visualLevel w1)"

subsection \<open>The host: key events, frames, time and timers\<close>

text \<open>\<^verbatim>\<open>handleDown\<close> and \<^verbatim>\<open>handleUp\<close> of the key listeners (the React copy of
  \<^verbatim>\<open>isLeaning\<close> only feeds the renderer and is left out).\<close>

definition handleDown :: "string \<Rightarrow> world \<Rightarrow> world" where
  "handleDown key w =
     (if key \<in> set (inputKeys CONFIG) then w\<lparr> stateRef := (stateRef w)\<lparr> isLeaning := True \<rparr> \<rparr> else w)"

definition handleUp :: "string \<Rightarrow> world \<Rightarrow> world" where
  "handleUp key w =
     (if key \<in> set (inputKeys CONFIG) then w\<lparr> stateRef := (stateRef w)\<lparr> isLeaning := False \<rparr> \<rparr> else w)"

text \<open>
  The browser's side of the program, as far as the engine depends on it. Time passes
  (\<open>elapse\<close>, in seconds): the wall clock advances and so does \<^verbatim>\<open>currentTime\<close> of every
  running context. A pending timer may run once the wall clock has reached its due time
  (\<open>fireTimer\<close>); it is removed from the pending list and its callback runs to completion,
  never inside a frame.
\<close>

definition elapse :: "real \<Rightarrow> world \<Rightarrow> world" where
  "elapse dt w =
     (if dt < 0 then w
      else w\<lparr> wall := wall w + dt * 1000,
              contexts := (\<lambda>c. if cstate (contexts w c) = Running
                                then (contexts w c)\<lparr> currentTime := currentTime (contexts w c) + dt \<rparr>
                                else contexts w c) \<rparr>)"

definition fireTimer :: "nat \<Rightarrow> world \<Rightarrow> world" where
  "fireTimer i w =
     (if i < length (timers w) then
        (if due (timers w ! i) \<le> wall w
         then runCallback (cb (timers w ! i))
                (w\<lparr> timers := take i (timers w) @ drop (Suc i) (timers w) \<rparr>)
         else w)
      else w)"

datatype event =
    Frame real
  | KeyDown string
  | KeyUp string
  | Elapse real
  | Timeout nat
  | ClickStop

fun step :: "event \<Rightarrow> world \<Rightarrow> world" where
  "step (Frame time) w = gameLoop time w"
| "step (KeyDown key) w = handleDown key w"
| "step (KeyUp key) w = handleUp key w"
| "step (Elapse dt) w = elapse dt w"
| "step (Timeout i) w = fireTimer i w"
| "step ClickStop w = handleStop w"

fun run :: "event list \<Rightarrow> world \<Rightarrow> world" where
  "run [] w = w"
| "run (e # es) w = run es (step e w)"

definition clamp :: "real \<Rightarrow> real \<Rightarrow> real \<Rightarrow> real" where
  "clamp x lo hi = max lo (min hi x)"

subsection \<open>Predicates used in the statements\<close>

text \<open>The four stem gains exist (the first guard of \<^verbatim>\<open>scheduleMusicAt17s\<close>).\<close>

definition gainsReady :: "world \<Rightarrow> bool" where
  "gainsReady w =
     (gainOther (audioRef w) \<noteq> None \<and> gainBass (audioRef w) \<noteq> None \<and>
      gainDrums (audioRef w) \<noteq> None \<and> gainVocals (audioRef w) \<noteq> None)"

text \<open>The selected folder is buffered and has its accompaniment (the second guard).\<close>

definition stemsLoaded :: "world \<Rightarrow> bool" where
  "stemsLoaded w =
     (case musicBuffersRef w (currentSelected w) of
        None \<Rightarrow> False
      | Some m \<Rightarrow> other m \<noteq> None)"

text \<open>
  \<open>startedFor w r buf role t\<close>: the source that \<open>r\<close> names is the one \<^verbatim>\<open>createSrc\<close> makes
  for \<open>buf\<close>: none for a missing buffer, else a node on \<open>buf\<close>, bound to the gain \<open>role\<close>,
  started at \<open>t\<close> and not stopped.
\<close>

definition startedFor :: "world \<Rightarrow> nat option \<Rightarrow> audioBuffer option \<Rightarrow> gainRole \<Rightarrow> real \<Rightarrow> bool" where
  "startedFor w r buf role t =
     (case buf of
        None \<Rightarrow> r = None
      | Some b \<Rightarrow>
         (case r of
            None \<Rightarrow> False
          | Some j \<Rightarrow> sources w j = \<lparr> buffer = b, loop = False, loopStart = 0, loopEnd = 0,
                          dest = Some role, startedAt = Some t, stopped = False \<rparr>))"

text \<open>The address \<open>r\<close> names, if any, has been handed out by the source store.\<close>

definition allocated :: "world \<Rightarrow> nat option \<Rightarrow> bool" where
  "allocated w r = (case r of None \<Rightarrow> True | Some j \<Rightarrow> j < nextSource w)"

text \<open>Events of a session that is left alone: frames, keys and the passing of time.\<close>

fun quiet :: "event \<Rightarrow> bool" where
  "quiet (Frame time) = True"
| "quiet (KeyDown key) = True"
| "quiet (KeyUp key) = True"
| "quiet (Elapse dt) = True"
| "quiet (Timeout i) = False"
| "quiet ClickStop = False"

subsection \<open>An example session\<close>

text \<open>The state at mount: the initial values of the refs and of the React state.\<close>

definition initialWorld :: world where
  "initialWorld =
     \<lparr> audioRef = emptyAudio,
       contexts = (\<lambda>_. \<lparr> currentTime = 0, cstate = Closed \<rparr>),
       sources = (\<lambda>_. \<lparr> buffer = \<lparr> bufferName = [], sampleRate = 0 \<rparr>, loop = False,
                          loopStart = 0, loopEnd = 0, dest = None, startedAt = None,
                          stopped = False \<rparr>),
       nextSource = 0,
       buffersRef = None,
       musicBuffersRef = (\<lambda>_. None),
       selectedMusicRef = [],
       selectedMusic = [],
       stateRef = \<lparr> gauge = 0, visualGauge = 0, isLooping = True, vocalActive = False,
                     isLeaning = False \<rparr>,
       isReady = False,
       isLoading = False,
       isPaused = False,
       statusText = ''DISCONNECTED'',
       stage = Stage0,
       errorMessage = [],
       timers = [],
       wall = 0 \<rparr>"

definition clockBuffer :: audioBuffer where
  "clockBuffer = \<lparr> bufferName = ''/onlyclock.wav'', sampleRate = 48000 \<rparr>"

text \<open>A folder with no drums stem.\<close>

definition demoStems :: musicSet where
  "demoStems =
     \<lparr> other = Some \<lparr> bufferName = ''/Misty/other.wav'', sampleRate = 48000 \<rparr>,
       bass = Some \<lparr> bufferName = ''/Misty/bass.wav'', sampleRate = 48000 \<rparr>,
       drums = None,
       vocals = Some \<lparr> bufferName = ''/Misty/vocals.wav'', sampleRate = 48000 \<rparr> \<rparr>"

text \<open>The music list has loaded with \<^verbatim>\<open>Misty\<close> first, and the user has connected.\<close>

definition demoSession :: world where
  "demoSession =
     initAudio 0 clockBuffer demoStems
       (initialWorld\<lparr> selectedMusic := ''Misty'', selectedMusicRef := ''Misty'' \<rparr>)"

text \<open>
  The session \<open>t\<close> seconds after connecting, the key held and the gauge charged to 99.9,
  as 666 frames leave it (the automation those frames left on the clock gain is not
  recorded in this example).
\<close>

definition heldUntil :: "real \<Rightarrow> world" where
  "heldUntil t =
     (elapse t demoSession)\<lparr> stateRef := (stateRef demoSession)\<lparr> gauge := 99.9, isLeaning := True \<rparr> \<rparr>"

text \<open>Twelve seconds into the session the next frame saturates the gauge and releases the
  loop; nineteen seconds later the callback of \<^verbatim>\<open>scheduleMusicAt17s\<close> runs.\<close>

definition demoReleased :: world where
  "demoReleased = step (Frame 0) (heldUntil 12)"

definition demoMix :: world where
  "demoMix = run [Elapse 19, Timeout 0] demoReleased"

text \<open>
  The same session when the accompaniment of the folder could not be loaded
  (\<^verbatim>\<open>loadMusicFolder\<close> answers \<^verbatim>\<open>null\<close> for a stem it cannot load), twelve seconds in,
  the gauge charged to 99.9.
\<close>

definition unbufferedSession :: world where
  "unbufferedSession =
     initAudio 0 clockBuffer (demoStems\<lparr> other := None \<rparr>)
       (initialWorld\<lparr> selectedMusic := ''Misty'', selectedMusicRef := ''Misty'' \<rparr>)"

definition unbufferedHeld :: world where
  "unbufferedHeld =
     (elapse 12 unbufferedSession)\<lparr> stateRef :=
        (stateRef unbufferedSession)\<lparr> gauge := 99.9, isLeaning := True \<rparr> \<rparr>"

text \<open>
  The next frame saturates the gauge and releases the loop. Later the folder is loaded
  after all (the click handler of the track list stores what \<^verbatim>\<open>loadMusicFolder\<close> answers
  in \<^verbatim>\<open>musicBuffersRef\<close>).
\<close>

definition unbufferedReleased :: world where
  "unbufferedReleased = step (Frame 0) unbufferedHeld"

definition loadedLater :: world where
  "loadedLater =
     unbufferedReleased\<lparr> musicBuffersRef :=
        (musicBuffersRef unbufferedReleased)(''Misty'' := Some demoStems) \<rparr>"

text \<open>The stop is requested right after the release; ten seconds later its reset runs.\<close>

definition demoStopped :: world where
  "demoStopped = run [ClickStop, Elapse 10, Timeout 1] demoReleased"

text \<open>The source addresses that \<^verbatim>\<open>audioRef\<close> names.\<close>

definition sourceRefs :: "audio \<Rightarrow> nat set" where
  "sourceRefs a =
     set_option (clockSrc a) \<union> set_option (otherSrc a) \<union> set_option (bassSrc a)
       \<union> set_option (drumsSrc a) \<union> set_option (vocalsSrc a)"

subsection \<open>The second source file\<close>

text \<open>
  \<^verbatim>\<open>src/unnamed/part_000\<close> is another version of the same component. Its gauge update is
  the one above. The mix branch of its \<^verbatim>\<open>gameLoop\<close> writes the stem volumes with separate
  conditions and also drives the accompaniment gain; its \<^verbatim>\<open>releaseLoop\<close> takes the mix
  start from the session start, not from a loop boundary. These three fragments are
  modelled here for comparison.
\<close>

definition stemVolumes_part000 :: "real \<Rightarrow> real \<times> real \<times> real" where
  "stemVolumes_part000 g =
    (let bassVol = (if g > 0 \<and> g \<le> 20 then g / 20 else if g > 20 then 1.0 else 0);
         drumsVol = (if g > 20 \<and> g \<le> 40 then (g - 20) / 20 else if g > 40 then 1.0 else 0);
         vocalsVol = (if g > 40 \<and> g \<le> 100 then (g - 40) / 60 else 0)
     in (bassVol, drumsVol, vocalsVol))"

definition mixBranch_part000 :: "real \<Rightarrow> real \<Rightarrow> audio \<Rightarrow> audio" where
  "mixBranch_part000 now g a =
    (let (bassVol, drumsVol, vocalsVol) = stemVolumes_part000 g
     in a\<lparr> gainClock := map_option (setTargetAtTime 1.0 now 0.05) (gainClock a),
           gainOther := map_option (setTargetAtTime 1.0 now 0.05) (gainOther a),
           gainBass := map_option (setTargetAtTime bassVol now 0.05) (gainBass a),
           gainDrums := map_option (setTargetAtTime drumsVol now 0.05) (gainDrums a),
           gainVocals := map_option (setTargetAtTime vocalsVol now 0.05) (gainVocals a) \<rparr>)"

text \<open>The instant its \<^verbatim>\<open>releaseLoop\<close> passes to \<^verbatim>\<open>scheduleMusicAt17s\<close>.\<close>

definition musicStart_part000 :: "real \<Rightarrow> real \<Rightarrow> real" where
  "musicStart_part000 startTime' now =
    (let elapsed = now - startTime';
         timeUntil17s = vocalStartTime CONFIG - elapsed
     in if timeUntil17s > 0 then now + timeUntil17s else now)"

section \<open>Rounding\<close>

text \<open>
  What the proofs below need of \<open>double\<close>: it is monotone, it fixes the integers below
  \<open>2 ^ 53\<close>, and its relative error is at most \<open>2 ^ - 53\<close>.
\<close>

lemma roundEven_cases: "roundEven y = \<lfloor>y\<rfloor> \<or> roundEven y = \<lfloor>y\<rfloor> + 1"
  by (simp add: roundEven_def Let_def)

lemma roundEven_near: "\<bar>of_int (roundEven y) - y\<bar> \<le> 1/2"
  unfolding roundEven_def Let_def by (auto; linarith)

lemma roundEven_of_int: "roundEven (of_int n) = n"
  by (simp add: roundEven_def)

lemma roundEven_mono:
  assumes "y \<le> z"
  shows "roundEven y \<le> roundEven z"
proof (cases "\<lfloor>y\<rfloor> = \<lfloor>z\<rfloor>")
  case True
  with assms show ?thesis
    unfolding roundEven_def Let_def by (auto; linarith)
next
  case False
  with assms have "\<lfloor>y\<rfloor> < \<lfloor>z\<rfloor>" by (simp add: floor_mono order.not_eq_order_implies_strict)
  moreover have "roundEven y \<le> \<lfloor>y\<rfloor> + 1" using roundEven_cases [of y] by auto
  moreover have "\<lfloor>z\<rfloor> \<le> roundEven z" using roundEven_cases [of z] by auto
  ultimately show ?thesis by linarith
qed

lemma roundEven_le_int: "y \<le> of_int n \<Longrightarrow> roundEven y \<le> n"
  using roundEven_mono [of y "of_int n"] by (simp add: roundEven_of_int)

lemma roundEven_ge_int: "of_int n \<le> y \<Longrightarrow> n \<le> roundEven y"
  using roundEven_mono [of "of_int n" y] by (simp add: roundEven_of_int)

lemma exponent_bounds:
  fixes x :: real
  assumes "0 < x"
  defines "E \<equiv> \<lfloor>log 2 x\<rfloor>"
  shows "2 powi E \<le> x" and "x < 2 powi (E + 1)"
proof -
  have "\<lfloor>log 2 x\<rfloor> = E" by (simp add: E_def)
  then have "2 powr (of_int E) \<le> x \<and> x < 2 powr (of_int E + 1)"
    using assms(1) by (subst (asm) floor_log_eq_powr_iff) simp_all
  moreover have "(2::real) powr (of_int E) = 2 powi E"
    by (rule powr_real_of_int') simp_all
  moreover have "(2::real) powr (of_int E + 1) = 2 powi (E + 1)"
    using powr_real_of_int' [of "2::real" "E + 1"] by simp
  ultimately show "2 powi E \<le> x" and "x < 2 powi (E + 1)" by simp_all
qed

lemma significand_range:
  fixes x :: real
  assumes "0 < x"
  defines "e \<equiv> \<lfloor>log 2 x\<rfloor> - 52"
  shows "2 ^ 52 \<le> x / 2 powi e" and "x / 2 powi e < 2 ^ 53"
proof -
  have p: "(0::real) < 2 powi e" by simp
  have a: "(2::real) powi (e + 52) = 2 powi e * 2 ^ 52"
    by (simp add: power_int_add)
  have b: "(2::real) powi (e + 53) = 2 powi e * 2 ^ 53"
    by (simp add: power_int_add)
  from exponent_bounds [OF assms(1)]
  have "2 powi (e + 52) \<le> x" "x < 2 powi (e + 53)"
    by (simp_all add: e_def add.commute)
  then have "2 powi e * 2 ^ 52 \<le> x" "x < 2 powi e * 2 ^ 53"
    unfolding a b by simp_all
  then show "2 ^ 52 \<le> x / 2 powi e" and "x / 2 powi e < 2 ^ 53"
    using p by (simp_all add: field_simps)
qed

lemma double_pos_eq:
  "0 < x \<Longrightarrow> double x =
     of_int (roundEven (x / 2 powi (\<lfloor>log 2 x\<rfloor> - 52))) * 2 powi (\<lfloor>log 2 x\<rfloor> - 52)"
  by (simp add: double_def Let_def)

lemma double_0: "double 0 = 0"
  by (simp add: double_def)


lemma double_pos_bounds:
  fixes x :: real
  assumes "0 < x"
  shows "2 powi \<lfloor>log 2 x\<rfloor> \<le> double x" and "double x \<le> 2 powi (\<lfloor>log 2 x\<rfloor> + 1)"
proof -
  define e where "e = \<lfloor>log 2 x\<rfloor> - 52"
  define r where "r = roundEven (x / 2 powi e)"
  have p: "(0::real) < 2 powi e" by simp
  have d: "double x = of_int r * 2 powi e"
    using assms by (simp add: double_pos_eq r_def e_def)
  from significand_range [OF assms, folded e_def]
  have "of_int (2 ^ 52) \<le> x / 2 powi e" "x / 2 powi e \<le> of_int (2 ^ 53)" by simp_all
  then have "2 ^ 52 \<le> r" "r \<le> 2 ^ 53"
    unfolding r_def by (simp_all only: roundEven_ge_int roundEven_le_int)
  then have r: "(2::real) ^ 52 \<le> of_int r" "of_int r \<le> (2::real) ^ 53"
    by (metis of_int_le_iff of_int_numeral of_int_power)+
  have a: "(2::real) powi \<lfloor>log 2 x\<rfloor> = 2 ^ 52 * 2 powi e"
    by (simp add: e_def power_int_diff)
  have b: "(2::real) powi (\<lfloor>log 2 x\<rfloor> + 1) = 2 ^ 53 * 2 powi e"
    by (simp add: e_def power_int_diff power_int_add)
  show "2 powi \<lfloor>log 2 x\<rfloor> \<le> double x"
    unfolding a d using r(1) p by (simp only: mult_le_cancel_right_pos)
  show "double x \<le> 2 powi (\<lfloor>log 2 x\<rfloor> + 1)"
    unfolding b d using r(2) p by (simp only: mult_le_cancel_right_pos)
qed

lemma double_pos: "0 < x \<Longrightarrow> 0 < double x"
  using double_pos_bounds(1) [of x] zero_less_power_int [of "2::real" "\<lfloor>log 2 x\<rfloor>"]
  by linarith

lemma double_nonneg: "0 \<le> x \<Longrightarrow> 0 \<le> double x"
  using double_pos [of x] by (cases "x = 0") (simp_all add: double_0 less_eq_real_def)

lemma double_mono:
  assumes "0 \<le> x" "x \<le> y"
  shows "double x \<le> double y"
proof (cases "x = 0")
  case True
  with assms show ?thesis by (simp add: double_0 double_nonneg)
next
  case False
  with assms have x: "0 < x" and y: "0 < y" by simp_all
  have E: "\<lfloor>log 2 x\<rfloor> \<le> \<lfloor>log 2 y\<rfloor>"
    using assms(2) x by (intro floor_mono) simp
  show ?thesis
  proof (cases "\<lfloor>log 2 x\<rfloor> = \<lfloor>log 2 y\<rfloor>")
    case True
    define e where "e = \<lfloor>log 2 y\<rfloor> - 52"
    have p: "(0::real) < 2 powi e" by simp
    have "x / 2 powi e \<le> y / 2 powi e"
      using assms(2) p by (simp add: divide_right_mono)
    then have "roundEven (x / 2 powi e) \<le> roundEven (y / 2 powi e)"
      by (rule roundEven_mono)
    then have "of_int (roundEven (x / 2 powi e)) * (2::real) powi e
                \<le> of_int (roundEven (y / 2 powi e)) * 2 powi e"
      using p by (simp only: mult_le_cancel_right_pos of_int_le_iff)
    then show ?thesis
      using x y True by (simp add: double_pos_eq e_def)
  next
    case False
    with E have "\<lfloor>log 2 x\<rfloor> + 1 \<le> \<lfloor>log 2 y\<rfloor>" by simp
    then have "(2::real) powi (\<lfloor>log 2 x\<rfloor> + 1) \<le> 2 powi \<lfloor>log 2 y\<rfloor>"
      by (intro power_int_increasing) simp_all
    with double_pos_bounds(2) [OF x] double_pos_bounds(1) [OF y]
    show ?thesis by linarith
  qed
qed

lemma double_of_int:
  assumes "0 \<le> n" "n < 2 ^ 53"
  shows "double (of_int n) = of_int n"
proof (cases "n = 0")
  case True
  then show ?thesis by (simp add: double_0)
next
  case False
  with assms have n: "0 < (of_int n :: real)" by simp
  define E where "E = \<lfloor>log 2 (of_int n :: real)\<rfloor>"
  have "(2::real) powi E \<le> of_int n" unfolding E_def using n by (rule exponent_bounds)
  also have "(of_int n :: real) < 2 ^ 53"
    using assms(2) by (metis of_int_less_iff of_int_numeral of_int_power)
  finally have "(2::real) powi E < 2 powi 53" by simp
  then have "E < 53" by (rule power_int_le_imp_less_exp [rotated]) simp_all
  define m where "m = nat (52 - E)"
  have e: "E - 52 = - int m" using \<open>E < 53\<close> by (simp add: m_def)
  have u: "(2::real) powi (E - 52) = inverse (2 ^ m)"
    unfolding e by (simp add: power_int_minus)
  have q: "of_int n / (2::real) powi (E - 52) = of_int (n * 2 ^ m)"
    unfolding u by (simp add: field_simps)
  have "double (of_int n) = of_int (roundEven (of_int n / 2 powi (E - 52))) * 2 powi (E - 52)"
    using n by (simp add: double_pos_eq E_def)
  also have "\<dots> = of_int (n * 2 ^ m) * 2 powi (E - 52)"
    by (simp only: q roundEven_of_int)
  also have "\<dots> = of_int (n * 2 ^ m) * inverse (2 ^ m)"
    by (simp only: u)
  also have "\<dots> = of_int n" by simp
  finally show ?thesis .
qed

lemma double_error:
  assumes "0 < x"
  shows "\<bar>double x - x\<bar> \<le> x / 2 ^ 53"
proof -
  define e where "e = \<lfloor>log 2 x\<rfloor> - 52"
  define u :: real where "u = 2 powi e"
  define r where "r = roundEven (x / u)"
  have p: "0 < u" by (simp add: u_def)
  have d: "double x = of_int r * u"
    using assms by (simp add: double_pos_eq r_def e_def u_def)
  have "\<bar>of_int r - x / u\<bar> \<le> 1/2" unfolding r_def by (rule roundEven_near)
  then have "\<bar>of_int r - x / u\<bar> * u \<le> 1/2 * u" using p by (simp only: mult_le_cancel_right_pos)
  moreover have "\<bar>of_int r - x / u\<bar> * u = \<bar>of_int r * u - x\<bar>"
    using p by (simp add: abs_mult_pos [symmetric] field_simps)
  ultimately have 1: "\<bar>double x - x\<bar> \<le> u / 2" by (simp add: d)
  from significand_range(1) [OF assms, folded e_def, folded u_def]
  have "2 ^ 52 * u \<le> x" using p by (simp add: field_simps)
  then have "u / 2 \<le> x / 2 ^ 53" by simp
  with 1 show ?thesis by linarith
qed

lemma double_eval:
  assumes "0 < x" "2 powi E \<le> x" "x < 2 powi (E + 1)"
  shows "double x = of_int (roundEven (x / 2 powi (E - 52))) * 2 powi (E - 52)"
proof -
  have "(2::real) powr (of_int E) = 2 powi E"
    by (rule powr_real_of_int') simp_all
  moreover have "(2::real) powr (of_int E + 1) = 2 powi (E + 1)"
    using powr_real_of_int' [of "2::real" "E + 1"] by simp
  ultimately have "\<lfloor>log 2 x\<rfloor> = E"
    using assms by (subst floor_log_eq_powr_iff) simp_all
  with assms(1) show ?thesis by (simp add: double_pos_eq)
qed

lemma double_numeral:
  assumes "(numeral k :: int) < 2 ^ 53"
  shows "double (numeral k) = numeral k"
  using double_of_int [of "numeral k"] assms by simp

lemma double_1: "double 1 = 1"
  using double_of_int [of 1] by simp

lemma double_idem_int:
  assumes "0 \<le> n" "n < 2 ^ 53" "x = of_int n"
  shows "double x = x"
  using double_of_int [OF assms(1,2)] assms(3) by simp

subsection \<open>The loop boundary of releaseLoop\<close>

text \<open>
  For an anchor \<open>s\<close> and a call at \<open>n\<close>, a double, less than \<open>2 ^ 40\<close> seconds later: the
  number of loops \<open>k\<close> that \<^verbatim>\<open>releaseLoop\<close> counts is at least one, \<open>k\<close> and \<open>k * loopEndTime\<close>
  are computed exactly, so the boundary is the anchor plus \<open>k * loopEndTime\<close>, rounded
  once, and it is not before the call.
\<close>

lemma currentLoopEnd_props:
  fixes s n :: real
  assumes "0 \<le> s" "s \<le> n" "n - s < 2 ^ 40" "double n = n"
  defines "q \<equiv> double (double (n - s) / loopEndTime CONFIG)"
  defines "k \<equiv> \<lfloor>q\<rfloor> + 1"
  shows "1 \<le> k"
    and "currentLoopEnd s n = double (s + of_int k * loopEndTime CONFIG)"
    and "n \<le> currentLoopEnd s n"
proof -
  define d where "d = double (n - s)"
  have c7: "loopEndTime CONFIG = 7" by (simp add: CONFIG_def)
  have q: "q = double (d / 7)" by (simp add: q_def d_def c7)
  have p40: "double (2 ^ 40) = 2 ^ 40"
    using double_of_int [of "2 ^ 40"] by simp
  have d0: "0 \<le> d" unfolding d_def using assms(2) by (simp add: double_nonneg)
  have "d \<le> double (2 ^ 40)"
    unfolding d_def using assms(2,3) by (intro double_mono) simp_all
  then have d40: "d \<le> 2 ^ 40" by (simp only: p40)
  have q0: "0 \<le> q" unfolding q using d0 by (simp add: double_nonneg)
  have "q \<le> double (2 ^ 40)"
    unfolding q using d0 d40 by (intro double_mono) simp_all
  then have q40: "q \<le> 2 ^ 40" by (simp only: p40)
  have f0: "0 \<le> \<lfloor>q\<rfloor>" using q0 by simp
  have "\<lfloor>q\<rfloor> \<le> \<lfloor>2 ^ 40 :: real\<rfloor>" using q40 by (rule floor_mono)
  then have f40: "\<lfloor>q\<rfloor> \<le> 2 ^ 40" by simp
  show k1: "1 \<le> k" using f0 by (simp add: k_def)
  have k40: "k \<le> 2 ^ 40 + 1" using f40 by (simp add: k_def)
  have dk: "double (of_int \<lfloor>q\<rfloor> + 1) = of_int k"
    using double_of_int [of k] k1 k40 by (simp add: k_def)
  have dk7: "double (of_int k * 7) = of_int k * 7"
    using double_of_int [of "k * 7"] k1 k40 by simp
  show eq: "currentLoopEnd s n = double (s + of_int k * loopEndTime CONFIG)"
    unfolding currentLoopEnd_def Let_def q_def [symmetric]
    by (simp only: dk c7 dk7)
  have qk: "q < of_int k" by (simp add: k_def)
  have dlt: "d / 7 < of_int k"
  proof (rule ccontr)
    assume "\<not> d / 7 < of_int k"
    then have "of_int k \<le> d / 7" by simp
    then have "double (of_int k) \<le> double (d / 7)"
      using k1 by (intro double_mono) simp_all
    moreover have "double (of_int k) = of_int k"
      using double_of_int [of k] k1 k40 by simp
    ultimately show False using qk by (simp add: q)
  qed
  have nlt: "n - s < of_int k * 7"
  proof (rule ccontr)
    assume "\<not> n - s < of_int k * 7"
    then have "of_int k * 7 \<le> n - s" by simp
    then have "double (of_int k * 7) \<le> double (n - s)"
      using k1 by (intro double_mono) simp_all
    then have "of_int k * 7 \<le> d" by (simp only: dk7 d_def)
    with dlt show False by simp
  qed
  have "double n \<le> double (s + of_int k * 7)"
    using assms(1,2) nlt by (intro double_mono) simp_all
  then show "n \<le> currentLoopEnd s n" by (simp only: eq c7 assms(4))
qed

text \<open>The example session: anchor 0, release at 12 or at 14 seconds.\<close>

lemma double_12_7: "double (12 / 7) = 7720456504063707 / 2 ^ 52"
  using double_eval [of "12/7" 0] by (simp add: roundEven_def Let_def)

lemma currentLoopEnd_0_12: "currentLoopEnd 0 12 = 14"
proof -
  have "\<lfloor>double (12 / 7)\<rfloor> = 1" by (simp add: double_12_7)
  then show ?thesis
    by (simp add: currentLoopEnd_def CONFIG_def double_numeral)
qed

lemma currentLoopEnd_0_14: "currentLoopEnd 0 14 = 21"
  by (simp add: currentLoopEnd_def CONFIG_def double_numeral)

section \<open>Properties\<close>

subsection \<open>Unfolding and evaluation\<close>

lemmas engine_defs =
  CONFIG_def cancelScheduledValues_def setValueAtTime_def linearRampToValueAtTime_def
  setTargetAtTime_def stopSource_def setTimeout_def emptyAudio_def stopOpt_def startMusic_def
  createSrc_def currentSelected_def scheduleMusicAt17s_def releaseLoop_def fadeGain_def
  stopReset_def handleStop_def activateMix_def inputLogic_def stemVolumes_def audioControl_def
  visualUpdate_def gameLoop_def handleDown_def handleUp_def elapse_def fireTimer_def
  initAudio_def newGain_def Let_def double_numeral currentLoopEnd_0_12 currentLoopEnd_0_14

lemmas demo_defs =
  initialWorld_def clockBuffer_def demoStems_def demoSession_def heldUntil_def
  demoReleased_def demoMix_def demoStopped_def

subsection \<open>What a frame does to stateRef\<close>

lemma stateRef_createSrc: "stateRef (snd (createSrc t b r w)) = stateRef w"
  by (simp add: createSrc_def Let_def split: option.splits)

lemma stateRef_setTimeout: "stateRef (setTimeout f ms w) = stateRef w"
  by (simp add: setTimeout_def)

lemma stateRef_scheduleMusicAt17s: "stateRef (scheduleMusicAt17s c t w) = stateRef w"
  by (simp add: scheduleMusicAt17s_def Let_def split_beta stateRef_createSrc stateRef_setTimeout
      split: option.splits)

lemma stateRef_releaseLoop:
  "stateRef (releaseLoop w) = stateRef w \<or>
   stateRef (releaseLoop w) = (stateRef w)\<lparr> isLooping := False \<rparr>"
  by (simp add: releaseLoop_def Let_def stateRef_scheduleMusicAt17s split: option.splits)

lemma gauge_releaseLoop: "gauge (stateRef (releaseLoop w)) = gauge (stateRef w)"
  using stateRef_releaseLoop [of w] by auto

lemma isLeaning_releaseLoop: "isLeaning (stateRef (releaseLoop w)) = isLeaning (stateRef w)"
  using stateRef_releaseLoop [of w] by auto

lemma vocalActive_releaseLoop: "vocalActive (stateRef (releaseLoop w)) = vocalActive (stateRef w)"
  using stateRef_releaseLoop [of w] by auto

lemma gauge_audioControl: "gauge (stateRef (snd (audioControl w))) = gauge (stateRef w)"
  by (simp add: audioControl_def Let_def split_beta gauge_releaseLoop split: option.splits)

lemma isLeaning_audioControl: "isLeaning (stateRef (snd (audioControl w))) = isLeaning (stateRef w)"
  by (simp add: audioControl_def Let_def split_beta isLeaning_releaseLoop split: option.splits)

lemma vocalActive_audioControl:
  "vocalActive (stateRef (snd (audioControl w))) = vocalActive (stateRef w)"
  by (simp add: audioControl_def Let_def split_beta vocalActive_releaseLoop split: option.splits)

lemma gauge_inputLogic:
  "gauge (stateRef (inputLogic w)) =
     clamp (gauge (stateRef w) +
        (if isLeaning (stateRef w)
         then (if vocalActive (stateRef w) then vocalGaugeSpeed CONFIG else gaugeSpeed CONFIG)
         else - decayRate CONFIG)) 0 100"
  by (simp add: inputLogic_def Let_def clamp_def CONFIG_def)

lemma gauge_gameLoop:
  "gauge (stateRef (gameLoop time w)) = gauge (stateRef (inputLogic w))"
  by (simp add: gameLoop_def visualUpdate_def split_beta gauge_audioControl)

lemma isLeaning_gameLoop:
  "isLeaning (stateRef (gameLoop time w)) = isLeaning (stateRef w)"
  by (simp add: gameLoop_def visualUpdate_def split_beta isLeaning_audioControl inputLogic_def Let_def)

lemma vocalActive_gameLoop:
  "vocalActive (stateRef (gameLoop time w)) = vocalActive (stateRef w)"
  by (simp add: gameLoop_def visualUpdate_def split_beta vocalActive_audioControl inputLogic_def Let_def)

lemma clamp_bounds: "0 \<le> clamp x 0 100 \<and> clamp x 0 100 \<le> 100"
  by (simp add: clamp_def)

subsection \<open>The gauge stays in range\<close>

lemma gauge_step_bounded:
  assumes "0 \<le> gauge (stateRef w)" "gauge (stateRef w) \<le> 100"
  shows "0 \<le> gauge (stateRef (step e w)) \<and> gauge (stateRef (step e w)) \<le> 100"
proof (cases e)
  case (Frame t)
  then show ?thesis by (simp add: gauge_gameLoop gauge_inputLogic clamp_bounds)
next
  case (KeyDown k)
  with assms show ?thesis by (simp add: handleDown_def)
next
  case (KeyUp k)
  with assms show ?thesis by (simp add: handleUp_def)
next
  case (Elapse dt)
  with assms show ?thesis by (simp add: elapse_def)
next
  case (Timeout i)
  with assms show ?thesis
    by (cases "cb (timers w ! i)") (simp_all add: fireTimer_def activateMix_def stopReset_def)
next
  case ClickStop
  with assms show ?thesis
    by (simp add: handleStop_def Let_def setTimeout_def split: option.splits)
qed

lemma gauge_run_bounded:
  "0 \<le> gauge (stateRef w) \<Longrightarrow> gauge (stateRef w) \<le> 100 \<Longrightarrow>
   0 \<le> gauge (stateRef (run es w)) \<and> gauge (stateRef (run es w)) \<le> 100"
proof (induction es arbitrary: w)
  case Nil
  then show ?case by simp
next
  case (Cons e es)
  from gauge_step_bounded [OF Cons.prems, of e] Cons.IH [of "step e w"]
  show ?case by simp
qed

text \<open>
  C3. Start from any state with the gauge at 0 and let any sequence of events happen
  (frames, key presses and releases, time passing, timers firing, stop requests, in any
  stage): the gauge is in [0,100] afterwards. Each frame updates it unconditionally: plus
  the charge rate when the input is active (\<^verbatim>\<open>vocalGaugeSpeed\<close> when \<^verbatim>\<open>vocalActive\<close>, else
  \<^verbatim>\<open>gaugeSpeed\<close>), minus \<^verbatim>\<open>decayRate\<close> otherwise, then clamped to [0,100].
\<close>

theorem gauge_in_range:
  "0 \<le> gauge (stateRef (run es (w\<lparr> stateRef := (stateRef w)\<lparr> gauge := 0 \<rparr> \<rparr>)))
   \<and> gauge (stateRef (run es (w\<lparr> stateRef := (stateRef w)\<lparr> gauge := 0 \<rparr> \<rparr>))) \<le> 100
   \<and> gauge (stateRef (gameLoop time w)) =
       clamp (gauge (stateRef w) +
          (if isLeaning (stateRef w)
           then (if vocalActive (stateRef w) then vocalGaugeSpeed CONFIG else gaugeSpeed CONFIG)
           else - decayRate CONFIG)) 0 100"
  using gauge_run_bounded [of "w\<lparr> stateRef := (stateRef w)\<lparr> gauge := 0 \<rparr> \<rparr>" es]
  by (simp add: gauge_gameLoop gauge_inputLogic)

subsection \<open>Charging from empty\<close>

lemma min_chain:
  fixes a n :: real
  assumes "0 \<le> n"
  shows "min 100 (min 100 (a + 3/20) + 3/20 * n) = min 100 (a + 3/20 * (n + 1))"
proof -
  define m where "m = 3/20 * n"
  have e: "3/20 * (n + 1) = 3/20 + m" by (simp add: algebra_simps m_def)
  have p: "0 \<le> m" using assms by (simp add: m_def)
  show ?thesis unfolding e m_def[symmetric] using p by (simp add: min_def)
qed

lemma gauge_frames_leaning:
  "isLeaning (stateRef w) \<Longrightarrow> 0 \<le> gauge (stateRef w) \<Longrightarrow> gauge (stateRef w) \<le> 100 \<Longrightarrow>
   gauge (stateRef (run (map Frame ts) w)) =
     min 100 (gauge (stateRef w) + 3/20 * real (length ts))"
proof (induction ts arbitrary: w)
  case Nil
  then show ?case by simp
next
  case (Cons t ts)
  let ?w = "gameLoop t w"
  have g: "gauge (stateRef ?w) = min 100 (gauge (stateRef w) + 3/20)"
    using Cons.prems by (simp add: gauge_gameLoop gauge_inputLogic clamp_def CONFIG_def)
  have "gauge (stateRef (run (map Frame ts) ?w)) =
          min 100 (gauge (stateRef ?w) + 3/20 * real (length ts))"
    using Cons.prems g by (intro Cons.IH) (simp_all add: isLeaning_gameLoop)
  also have "\<dots> = min 100 (min 100 (gauge (stateRef w) + 3/20) + 3/20 * real (length ts))"
    by (simp only: g)
  also have "\<dots> = min 100 (gauge (stateRef w) + 3/20 * (real (length ts) + 1))"
    by (rule min_chain) simp
  finally show ?case by (simp add: add.commute)
qed

text \<open>
  C9. From gauge 0, with the input active on every frame and nothing else happening,
  the gauge after \<open>n\<close> frames is \<open>min 100 (0.15 n)\<close>: below 100 for every \<open>n < 667\<close> (so on
  frame 666) and equal to 100 from frame 667 on, and \<open>667 = ceil (100 / 0.15)\<close>. The charge
  rate is 0.15 in both stages.
\<close>

theorem gauge_saturates_at_667:
  fixes w :: world and ts :: "real list"
  defines "w0 \<equiv> w\<lparr> stateRef := (stateRef w)\<lparr> gauge := 0, isLeaning := True \<rparr> \<rparr>"
  shows "gauge (stateRef (run (map Frame ts) w0)) = min 100 (gaugeSpeed CONFIG * real (length ts))
       \<and> (length ts < 667 \<longrightarrow> gauge (stateRef (run (map Frame ts) w0)) < 100)
       \<and> (667 \<le> length ts \<longrightarrow> gauge (stateRef (run (map Frame ts) w0)) = 100)
       \<and> \<lceil>100 / gaugeSpeed CONFIG\<rceil> = 667"
proof -
  have e: "gauge (stateRef (run (map Frame ts) w0)) = min 100 (3/20 * real (length ts))"
    using gauge_frames_leaning [of w0 ts] by (simp add: w0_def)
  have c: "\<lceil>100 / gaugeSpeed CONFIG\<rceil> = 667"
    by (simp add: CONFIG_def ceiling_eq_iff)
  have lt: "length ts < 667 \<Longrightarrow> 3/20 * real (length ts) < 100"
  proof -
    assume "length ts < 667"
    then have "real (length ts) \<le> 666" by simp
    then show ?thesis by simp
  qed
  have ge: "667 \<le> length ts \<Longrightarrow> 100 \<le> 3/20 * real (length ts)"
  proof -
    assume "667 \<le> length ts"
    then have "667 \<le> real (length ts)" by simp
    then show ?thesis by simp
  qed
  show ?thesis using e c lt ge by (simp add: CONFIG_def min_def)
qed

theorem gauge_saturates_at_667_witness:
  "gauge (stateRef (run (map Frame (replicate 666 0))
      (demoSession\<lparr> stateRef := (stateRef demoSession)\<lparr> gauge := 0, isLeaning := True \<rparr> \<rparr>))) < 100
   \<and> gauge (stateRef (run (map Frame (replicate 667 0))
      (demoSession\<lparr> stateRef := (stateRef demoSession)\<lparr> gauge := 0, isLeaning := True \<rparr> \<rparr>))) = 100"
proof -
  have a: "length (replicate 666 (0::real)) < 667" by simp
  have b: "667 \<le> length (replicate 667 (0::real))" by simp
  from gauge_saturates_at_667 [where w = demoSession and ts = "replicate 666 0"] a
  have 1: "gauge (stateRef (run (map Frame (replicate 666 0))
      (demoSession\<lparr> stateRef := (stateRef demoSession)\<lparr> gauge := 0, isLeaning := True \<rparr> \<rparr>))) < 100"
    by blast
  from gauge_saturates_at_667 [where w = demoSession and ts = "replicate 667 0"] b
  have 2: "gauge (stateRef (run (map Frame (replicate 667 0))
      (demoSession\<lparr> stateRef := (stateRef demoSession)\<lparr> gauge := 0, isLeaning := True \<rparr> \<rparr>))) = 100"
    by blast
  from 1 2 show ?thesis by (rule conjI)
qed

subsection \<open>The third branch of gameLoop: the mix\<close>

lemma inputLogic_frame:
  "audioRef (inputLogic w) = audioRef w" "contexts (inputLogic w) = contexts w"
  "isLooping (stateRef (inputLogic w)) = isLooping (stateRef w)"
  "vocalActive (stateRef (inputLogic w)) = vocalActive (stateRef w)"
  by (simp_all add: inputLogic_def Let_def)

lemma audioControl_mix:
  assumes "ctx (audioRef w) = Some c" "gainClock (audioRef w) = Some gc"
    and "\<not> isLooping (stateRef w)" "vocalActive (stateRef w)"
  shows "audioRef (snd (audioControl w)) =
     (audioRef w)\<lparr>
        gainClock := Some (setTargetAtTime 1 (currentTime (contexts w c)) 0.05 gc),
        gainBass := map_option (setTargetAtTime (fst (stemVolumes (gauge (stateRef w))))
                      (currentTime (contexts w c)) 0.05) (gainBass (audioRef w)),
        gainDrums := map_option (setTargetAtTime (fst (snd (stemVolumes (gauge (stateRef w)))))
                      (currentTime (contexts w c)) 0.05) (gainDrums (audioRef w)),
        gainVocals := map_option (setTargetAtTime (snd (snd (stemVolumes (gauge (stateRef w)))))
                      (currentTime (contexts w c)) 0.05) (gainVocals (audioRef w)) \<rparr>"
  using assms by (simp add: audioControl_def Let_def split_beta)

lemma gameLoop_mix:
  assumes "ctx (audioRef w) = Some c" "gainClock (audioRef w) = Some gc"
    and "\<not> isLooping (stateRef w)" "vocalActive (stateRef w)"
  shows "audioRef (gameLoop time w) =
     (audioRef w)\<lparr>
        gainClock := Some (setTargetAtTime 1 (currentTime (contexts w c)) 0.05 gc),
        gainBass := map_option (setTargetAtTime (fst (stemVolumes (gauge (stateRef (gameLoop time w)))))
                      (currentTime (contexts w c)) 0.05) (gainBass (audioRef w)),
        gainDrums := map_option (setTargetAtTime (fst (snd (stemVolumes (gauge (stateRef (gameLoop time w))))))
                      (currentTime (contexts w c)) 0.05) (gainDrums (audioRef w)),
        gainVocals := map_option (setTargetAtTime (snd (snd (stemVolumes (gauge (stateRef (gameLoop time w))))))
                      (currentTime (contexts w c)) 0.05) (gainVocals (audioRef w)) \<rparr>"
proof -
  have "audioRef (gameLoop time w) = audioRef (snd (audioControl (inputLogic w)))"
    by (simp add: gameLoop_def visualUpdate_def split_beta)
  then show ?thesis
    using audioControl_mix [of "inputLogic w" c gc] assms
    by (simp add: inputLogic_frame gauge_gameLoop)
qed

lemma stemVolumes_bands:
  assumes "0 \<le> g" "g \<le> 100"
  shows "stemVolumes g = (clamp (g / 20) 0 1, clamp ((g - 20) / 20) 0 1, clamp ((g - 40) / 60) 0 1)"
  using assms by (simp add: stemVolumes_def clamp_def min_def max_def)

lemma gauge_gameLoop_bounds:
  "0 \<le> gauge (stateRef (gameLoop time w)) \<and> gauge (stateRef (gameLoop time w)) \<le> 100"
  by (simp add: gauge_gameLoop gauge_inputLogic clamp_bounds)

text \<open>
  C4. For every gauge value \<open>g\<close> in [0,100] the three stem volumes that the mix branch of
  \<^verbatim>\<open>gameLoop\<close> computes are the band functions \<open>clamp (g/20)\<close>, \<open>clamp ((g-20)/20)\<close> and
  \<open>clamp ((g-40)/60)\<close> (clamped to [0,1]); at 20 bass is 1 and drums 0, at 40 drums is 1
  and vocals 0, at 100 vocals is 1. In the mix stage (a context and a clock gain exist,
  the loop is released, \<^verbatim>\<open>vocalActive\<close> is set) a frame hands exactly these values, taken
  at the gauge the frame has just computed, to \<^verbatim>\<open>setTargetAtTime\<close> on the bass, drums and
  vocals gains.
\<close>

theorem mix_stem_targets:
  fixes w :: world and time :: real
  assumes "ctx (audioRef w) = Some c" "gainClock (audioRef w) = Some gc"
    and "\<not> isLooping (stateRef w)" "vocalActive (stateRef w)"
    and "0 \<le> g" "g \<le> 100"
  defines "now \<equiv> currentTime (contexts w c)"
    and "g' \<equiv> gauge (stateRef (gameLoop time w))"
  shows "stemVolumes g = (clamp (g / 20) 0 1, clamp ((g - 20) / 20) 0 1, clamp ((g - 40) / 60) 0 1)
     \<and> stemVolumes 20 = (1, 0, 0) \<and> stemVolumes 40 = (1, 1, 0) \<and> stemVolumes 100 = (1, 1, 1)
     \<and> gainBass (audioRef (gameLoop time w)) =
          map_option (setTargetAtTime (clamp (g' / 20) 0 1) now 0.05) (gainBass (audioRef w))
     \<and> gainDrums (audioRef (gameLoop time w)) =
          map_option (setTargetAtTime (clamp ((g' - 20) / 20) 0 1) now 0.05) (gainDrums (audioRef w))
     \<and> gainVocals (audioRef (gameLoop time w)) =
          map_option (setTargetAtTime (clamp ((g' - 40) / 60) 0 1) now 0.05) (gainVocals (audioRef w))"
proof -
  have b: "stemVolumes g' = (clamp (g' / 20) 0 1, clamp ((g' - 20) / 20) 0 1, clamp ((g' - 40) / 60) 0 1)"
    unfolding g'_def using gauge_gameLoop_bounds [of time w] by (intro stemVolumes_bands) simp_all
  have pts: "stemVolumes 20 = (1, 0, 0)" "stemVolumes 40 = (1, 1, 0)" "stemVolumes 100 = (1, 1, 1)"
    by (simp_all add: stemVolumes_def)
  have a: "audioRef (gameLoop time w) =
     (audioRef w)\<lparr>
        gainClock := Some (setTargetAtTime 1 now 0.05 gc),
        gainBass := map_option (setTargetAtTime (fst (stemVolumes g')) now 0.05) (gainBass (audioRef w)),
        gainDrums := map_option (setTargetAtTime (fst (snd (stemVolumes g'))) now 0.05) (gainDrums (audioRef w)),
        gainVocals := map_option (setTargetAtTime (snd (snd (stemVolumes g'))) now 0.05) (gainVocals (audioRef w)) \<rparr>"
    unfolding now_def g'_def using assms(1-4) by (rule gameLoop_mix)
  show ?thesis
    using stemVolumes_bands [OF assms(5,6)] pts by (simp add: a b)
qed

lemma demoReleased_eval:
  "audioRef demoReleased =
     \<lparr> ctx = Some 0, clockSrc = Some 0, otherSrc = Some 1, bassSrc = Some 2, drumsSrc = None,
       vocalsSrc = Some 3,
       gainClock = Some \<lparr> gval = 0, events = [SetTargetAtTime 1 12 0.05] \<rparr>,
       gainOther = Some \<lparr> gval = 0, events = [SetValueAtTime 1 31] \<rparr>,
       gainBass = Some \<lparr> gval = 0, events = [] \<rparr>,
       gainDrums = Some \<lparr> gval = 0, events = [] \<rparr>,
       gainVocals = Some \<lparr> gval = 0, events = [] \<rparr>, startTime = 0 \<rparr>"
  "stateRef demoReleased =
     \<lparr> gauge = 100, visualGauge = 0.1, isLooping = False, vocalActive = False, isLeaning = True \<rparr>"
  "timers demoReleased = [\<lparr> due = 31000, cb = ActivateMix \<rparr>]"
  "wall demoReleased = 12000"
  "contexts demoReleased 0 = \<lparr> currentTime = 12, cstate = Running \<rparr>"
  "stage demoReleased = Stage1"
  by (simp_all add: demo_defs engine_defs)

lemma demoMix_eval:
  "audioRef demoMix = audioRef demoReleased"
  "stateRef demoMix =
     \<lparr> gauge = 0, visualGauge = 0.1, isLooping = False, vocalActive = True, isLeaning = True \<rparr>"
  "timers demoMix = []"
  "wall demoMix = 31000"
  "contexts demoMix 0 = \<lparr> currentTime = 31, cstate = Running \<rparr>"
  "stage demoMix = Stage2"
  by (simp_all add: demoMix_def demoReleased_eval elapse_def fireTimer_def activateMix_def)

theorem mix_stem_targets_witness:
  "stemVolumes 30 = (1, 1/2, 0)
   \<and> gainBass (audioRef (gameLoop 0 demoMix)) = Some \<lparr> gval = 0, events = [SetTargetAtTime (3/400) 31 0.05] \<rparr>
   \<and> gainDrums (audioRef (gameLoop 0 demoMix)) = Some \<lparr> gval = 0, events = [SetTargetAtTime 0 31 0.05] \<rparr>
   \<and> gainVocals (audioRef (gameLoop 0 demoMix)) = Some \<lparr> gval = 0, events = [SetTargetAtTime 0 31 0.05] \<rparr>"
proof -
  have h: "ctx (audioRef demoMix) = Some 0"
      "gainClock (audioRef demoMix) = Some \<lparr> gval = 0, events = [SetTargetAtTime 1 12 0.05] \<rparr>"
      "\<not> isLooping (stateRef demoMix)" "vocalActive (stateRef demoMix)"
      "(0::real) \<le> 30" "(30::real) \<le> 100"
    by (simp_all add: demoMix_eval demoReleased_eval)
  have g: "gauge (stateRef (gameLoop 0 demoMix)) = 3/20"
    by (simp add: gauge_gameLoop gauge_inputLogic demoMix_eval clamp_def CONFIG_def)
  show ?thesis
    using mix_stem_targets [OF h, of 0]
    by (simp add: g demoMix_eval demoReleased_eval clamp_def setTargetAtTime_def)
qed

text \<open>
  C10. For every gauge value in [0,100] each stem volume of the mix branch is in [0,1],
  none decreases when the gauge grows, and bass is at least drums, which is at least
  vocals.
\<close>

theorem stem_targets_layered:
  assumes "0 \<le> g" "g \<le> h" "h \<le> 100"
  shows "(case stemVolumes g of (bassVol, drumVol, vocalVol) \<Rightarrow>
          case stemVolumes h of (bassVol', drumVol', vocalVol') \<Rightarrow>
            0 \<le> bassVol \<and> bassVol \<le> 1 \<and> 0 \<le> drumVol \<and> drumVol \<le> 1
            \<and> 0 \<le> vocalVol \<and> vocalVol \<le> 1
            \<and> 0 \<le> bassVol' \<and> bassVol' \<le> 1 \<and> 0 \<le> drumVol' \<and> drumVol' \<le> 1
            \<and> 0 \<le> vocalVol' \<and> vocalVol' \<le> 1
            \<and> bassVol \<le> bassVol' \<and> drumVol \<le> drumVol' \<and> vocalVol \<le> vocalVol'
            \<and> drumVol \<le> bassVol \<and> vocalVol \<le> drumVol
            \<and> drumVol' \<le> bassVol' \<and> vocalVol' \<le> drumVol')"
  using assms by (simp add: stemVolumes_def)

theorem stem_targets_layered_witness:
  "(0::real) \<le> 30 \<and> (30::real) \<le> 70 \<and> (70::real) \<le> 100
   \<and> stemVolumes 30 = (1, 1/2, 0) \<and> stemVolumes 70 = (1, 1, 1/2)"
  using stem_targets_layered [of 30 70] by (simp add: stemVolumes_def)

text \<open>
  C8, as the code has it. On every frame of the mix stage the clock gain is driven
  toward 1.0 by \<^verbatim>\<open>setTargetAtTime\<close> with time constant 0.05 at the current audio time. The
  frame does not touch the accompaniment gain: its automation stays what
  \<^verbatim>\<open>scheduleMusicAt17s\<close> left, the \<^verbatim>\<open>setValueAtTime(1.0, musicStartAt)\<close>.
\<close>

theorem mix_tick_clock_gain:
  fixes w :: world and time :: real
  assumes "ctx (audioRef w) = Some c" "gainClock (audioRef w) = Some gc"
    and "\<not> isLooping (stateRef w)" "vocalActive (stateRef w)"
  shows "gainClock (audioRef (gameLoop time w)) =
           Some (setTargetAtTime 1.0 (currentTime (contexts w c)) 0.05 gc)
       \<and> gainOther (audioRef (gameLoop time w)) = gainOther (audioRef w)"
  by (simp add: gameLoop_mix [OF assms])

theorem mix_tick_clock_gain_witness:
  "gainClock (audioRef (gameLoop 0 demoMix)) =
     Some \<lparr> gval = 0, events = [SetTargetAtTime 1 12 0.05, SetTargetAtTime 1 31 0.05] \<rparr>
   \<and> gainOther (audioRef (gameLoop 0 demoMix)) = Some \<lparr> gval = 0, events = [SetValueAtTime 1 31] \<rparr>"
proof -
  have h: "ctx (audioRef demoMix) = Some 0"
      "gainClock (audioRef demoMix) = Some \<lparr> gval = 0, events = [SetTargetAtTime 1 12 0.05] \<rparr>"
      "\<not> isLooping (stateRef demoMix)" "vocalActive (stateRef demoMix)"
    by (simp_all add: demoMix_eval demoReleased_eval)
  show ?thesis
    using mix_tick_clock_gain [OF h, of 0]
    by (simp add: demoMix_eval demoReleased_eval setTargetAtTime_def)
qed

text \<open>
  C8 as stated fails on the accompaniment gain: in the example session, in the mix
  stage at audio time 31, a frame leaves the accompaniment gain with the single
  \<^verbatim>\<open>setValueAtTime\<close> it had; no \<^verbatim>\<open>setTargetAtTime\<close> toward 1.0 is added.
\<close>

theorem mix_tick_accompaniment_counterexample:
  "stage demoMix = Stage2 \<and> vocalActive (stateRef demoMix) \<and> \<not> isLooping (stateRef demoMix)
   \<and> ctx (audioRef demoMix) = Some 0 \<and> currentTime (contexts demoMix 0) = 31
   \<and> gainOther (audioRef demoMix) = Some \<lparr> gval = 0, events = [SetValueAtTime 1 31] \<rparr>
   \<and> gainOther (audioRef (gameLoop 0 demoMix)) = Some \<lparr> gval = 0, events = [SetValueAtTime 1 31] \<rparr>
   \<and> gainOther (audioRef (gameLoop 0 demoMix)) \<noteq>
        map_option (setTargetAtTime 1.0 31 0.05) (gainOther (audioRef demoMix))"
proof -
  have h: "ctx (audioRef demoMix) = Some 0"
      "gainClock (audioRef demoMix) = Some \<lparr> gval = 0, events = [SetTargetAtTime 1 12 0.05] \<rparr>"
      "\<not> isLooping (stateRef demoMix)" "vocalActive (stateRef demoMix)"
    by (simp_all add: demoMix_eval demoReleased_eval)
  show ?thesis
    by (simp add: gameLoop_mix [OF h] demoMix_eval demoReleased_eval setTargetAtTime_def)
qed

subsection \<open>createSrc and scheduleMusicAt17s\<close>

lemma snd_createSrc:
  "snd (createSrc t buf r w) =
     w\<lparr> sources := (case buf of None \<Rightarrow> sources w
                      | Some b \<Rightarrow> (sources w)(nextSource w :=
                          \<lparr> buffer = b, loop = False, loopStart = 0, loopEnd = 0,
                            dest = Some r, startedAt = Some t, stopped = False \<rparr>)),
        nextSource := (case buf of None \<Rightarrow> nextSource w | Some b \<Rightarrow> Suc (nextSource w)) \<rparr>"
  by (cases buf) (simp_all add: createSrc_def Let_def)

lemma fst_createSrc:
  "fst (createSrc t buf r w) = (case buf of None \<Rightarrow> None | Some b \<Rightarrow> Some (nextSource w))"
  by (cases buf) (simp_all add: createSrc_def Let_def)

lemma createSrc_frame:
  "audioRef (snd (createSrc t buf r w)) = audioRef w"
  "contexts (snd (createSrc t buf r w)) = contexts w"
  "timers (snd (createSrc t buf r w)) = timers w"
  "wall (snd (createSrc t buf r w)) = wall w"
  "stage (snd (createSrc t buf r w)) = stage w"
  "musicBuffersRef (snd (createSrc t buf r w)) = musicBuffersRef w"
  "selectedMusicRef (snd (createSrc t buf r w)) = selectedMusicRef w"
  "selectedMusic (snd (createSrc t buf r w)) = selectedMusic w"
  "errorMessage (snd (createSrc t buf r w)) = errorMessage w"
  by (simp_all add: snd_createSrc)

lemma createSrc_nextSource: "nextSource w \<le> nextSource (snd (createSrc t buf r w))"
  by (cases buf) (simp_all add: snd_createSrc)

lemma createSrc_old_sources:
  "j < nextSource w \<Longrightarrow> sources (snd (createSrc t buf r w)) j = sources w j"
  by (cases buf) (simp_all add: snd_createSrc)

lemma createSrc_new:
  "startedFor (snd (createSrc t buf r w)) (fst (createSrc t buf r w)) buf r t"
  "allocated (snd (createSrc t buf r w)) (fst (createSrc t buf r w))"
  by (cases buf; simp add: startedFor_def allocated_def snd_createSrc fst_createSrc)+

lemma createSrc_keeps:
  assumes "startedFor w x buf0 r0 t0" "allocated w x"
  shows "startedFor (snd (createSrc t buf r w)) x buf0 r0 t0"
    and "allocated (snd (createSrc t buf r w)) x"
proof -
  show "allocated (snd (createSrc t buf r w)) x"
    using assms(2) createSrc_nextSource [of w t buf r]
    by (cases x) (simp_all add: allocated_def)
  show "startedFor (snd (createSrc t buf r w)) x buf0 r0 t0"
  proof (cases x)
    case None
    with assms(1) show ?thesis by (simp add: startedFor_def split: option.splits)
  next
    case (Some j)
    with assms(2) have "j < nextSource w" by (simp add: allocated_def)
    then have "sources (snd (createSrc t buf r w)) j = sources w j"
      by (rule createSrc_old_sources)
    with assms(1) Some show ?thesis by (simp add: startedFor_def split: option.splits)
  qed
qed

lemma scheduleMusicAt17s_not_ready:
  "\<not> gainsReady w \<Longrightarrow> scheduleMusicAt17s c t w = w"
  by (cases "gainOther (audioRef w)"; cases "gainBass (audioRef w)";
      cases "gainDrums (audioRef w)"; cases "gainVocals (audioRef w)")
     (simp_all add: scheduleMusicAt17s_def gainsReady_def)

lemma scheduleMusicAt17s_not_loaded:
  assumes "gainsReady w" "\<not> stemsLoaded w"
  shows "scheduleMusicAt17s c t w =
           w\<lparr> errorMessage := ''Failed to load music: '' @ currentSelected w \<rparr>"
proof -
  from assms(1) obtain gO gB gD gV where
    h: "gainOther (audioRef w) = Some gO" "gainBass (audioRef w) = Some gB"
       "gainDrums (audioRef w) = Some gD" "gainVocals (audioRef w) = Some gV"
    by (auto simp: gainsReady_def)
  show ?thesis
  proof (cases "musicBuffersRef w (currentSelected w)")
    case None
    then show ?thesis by (simp add: scheduleMusicAt17s_def h)
  next
    case (Some m)
    with assms(2) have "other m = None" by (simp add: stemsLoaded_def)
    with Some show ?thesis by (simp add: scheduleMusicAt17s_def h)
  qed
qed

lemma scheduleMusicAt17s_loaded_eq:
  assumes "gainsReady w" "gainOther (audioRef w) = Some gO"
    and "musicBuffersRef w (currentSelected w) = Some m" "other m \<noteq> None"
  shows "scheduleMusicAt17s c t w =
     (let r1 = createSrc t (other m) Other w;
          r2 = createSrc t (bass m) Bass (snd r1);
          r3 = createSrc t (drums m) Drums (snd r2);
          r4 = createSrc t (vocals m) Vocals (snd r3);
          w5 = (snd r4)\<lparr> audioRef := (audioRef w)\<lparr>
                  otherSrc := fst r1, bassSrc := fst r2, drumsSrc := fst r3, vocalsSrc := fst r4,
                  gainOther := Some (setValueAtTime 1.0 t gO) \<rparr> \<rparr>
      in setTimeout ActivateMix (max 0 (t - currentTime (contexts w c)) * 1000) w5)"
proof -
  from assms obtain b gB gD gV where
    h: "other m = Some b" "gainBass (audioRef w) = Some gB" "gainDrums (audioRef w) = Some gD"
       "gainVocals (audioRef w) = Some gV"
    by (auto simp: gainsReady_def)
  show ?thesis
    unfolding scheduleMusicAt17s_def
    by (simp add: assms(2,3) h Let_def split_beta createSrc_frame)
qed

lemma scheduleMusicAt17s_loaded:
  assumes "gainsReady w" "gainOther (audioRef w) = Some gO"
    and "musicBuffersRef w (currentSelected w) = Some m" "other m \<noteq> None"
  shows "timers (scheduleMusicAt17s c t w) =
           timers w @ [\<lparr> due = wall w + max 0 (t - currentTime (contexts w c)) * 1000,
                          cb = ActivateMix \<rparr>]"
    and "gainOther (audioRef (scheduleMusicAt17s c t w)) = Some (setValueAtTime 1.0 t gO)"
    and "startedFor (scheduleMusicAt17s c t w)
           (otherSrc (audioRef (scheduleMusicAt17s c t w))) (other m) Other t"
    and "startedFor (scheduleMusicAt17s c t w)
           (bassSrc (audioRef (scheduleMusicAt17s c t w))) (bass m) Bass t"
    and "startedFor (scheduleMusicAt17s c t w)
           (drumsSrc (audioRef (scheduleMusicAt17s c t w))) (drums m) Drums t"
    and "startedFor (scheduleMusicAt17s c t w)
           (vocalsSrc (audioRef (scheduleMusicAt17s c t w))) (vocals m) Vocals t"
proof -
  define r1 where "r1 = createSrc t (other m) Other w"
  define r2 where "r2 = createSrc t (bass m) Bass (snd r1)"
  define r3 where "r3 = createSrc t (drums m) Drums (snd r2)"
  define r4 where "r4 = createSrc t (vocals m) Vocals (snd r3)"
  define w' where "w' = scheduleMusicAt17s c t w"
  have eq: "w' = setTimeout ActivateMix (max 0 (t - currentTime (contexts w c)) * 1000)
                ((snd r4)\<lparr> audioRef := (audioRef w)\<lparr>
                  otherSrc := fst r1, bassSrc := fst r2, drumsSrc := fst r3, vocalsSrc := fst r4,
                  gainOther := Some (setValueAtTime 1.0 t gO) \<rparr> \<rparr>)"
    unfolding w'_def r1_def r2_def r3_def r4_def
    using scheduleMusicAt17s_loaded_eq [OF assms, of c t] by (simp add: Let_def)
  have src: "sources w' = sources (snd r4)"
    by (simp add: eq setTimeout_def)
  have refs: "otherSrc (audioRef w') = fst r1" "bassSrc (audioRef w') = fst r2"
      "drumsSrc (audioRef w') = fst r3" "vocalsSrc (audioRef w') = fst r4"
    by (simp_all add: eq setTimeout_def)
  have sf: "startedFor w' x b r s = startedFor (snd r4) x b r s" for x b r s
    by (simp add: startedFor_def src split: option.splits)
  have s1: "startedFor (snd r1) (fst r1) (other m) Other t" "allocated (snd r1) (fst r1)"
    unfolding r1_def by (rule createSrc_new)+
  have s2: "startedFor (snd r2) (fst r2) (bass m) Bass t" "allocated (snd r2) (fst r2)"
    unfolding r2_def by (rule createSrc_new)+
  have s3: "startedFor (snd r3) (fst r3) (drums m) Drums t" "allocated (snd r3) (fst r3)"
    unfolding r3_def by (rule createSrc_new)+
  have s4: "startedFor (snd r4) (fst r4) (vocals m) Vocals t"
    unfolding r4_def by (rule createSrc_new)
  have k12: "startedFor (snd r2) (fst r1) (other m) Other t" "allocated (snd r2) (fst r1)"
    unfolding r2_def using s1 by (rule createSrc_keeps)+
  have k13: "startedFor (snd r3) (fst r1) (other m) Other t" "allocated (snd r3) (fst r1)"
    unfolding r3_def using k12 by (rule createSrc_keeps)+
  have k14: "startedFor (snd r4) (fst r1) (other m) Other t"
    unfolding r4_def using k13 by (rule createSrc_keeps)
  have k23: "startedFor (snd r3) (fst r2) (bass m) Bass t" "allocated (snd r3) (fst r2)"
    unfolding r3_def using s2 by (rule createSrc_keeps)+
  have k24: "startedFor (snd r4) (fst r2) (bass m) Bass t"
    unfolding r4_def using k23 by (rule createSrc_keeps)
  have k34: "startedFor (snd r4) (fst r3) (drums m) Drums t"
    unfolding r4_def using s3 by (rule createSrc_keeps)
  have tm: "timers (snd r4) = timers w" "wall (snd r4) = wall w"
    by (simp_all add: r4_def r3_def r2_def r1_def createSrc_frame)
  show "timers (scheduleMusicAt17s c t w) =
           timers w @ [\<lparr> due = wall w + max 0 (t - currentTime (contexts w c)) * 1000,
                          cb = ActivateMix \<rparr>]"
    unfolding w'_def [symmetric] by (simp add: eq setTimeout_def tm)
  show "gainOther (audioRef (scheduleMusicAt17s c t w)) = Some (setValueAtTime 1.0 t gO)"
    unfolding w'_def [symmetric] by (simp add: eq setTimeout_def)
  show "startedFor (scheduleMusicAt17s c t w)
           (otherSrc (audioRef (scheduleMusicAt17s c t w))) (other m) Other t"
    unfolding w'_def [symmetric] refs sf by (rule k14)
  show "startedFor (scheduleMusicAt17s c t w)
           (bassSrc (audioRef (scheduleMusicAt17s c t w))) (bass m) Bass t"
    unfolding w'_def [symmetric] refs sf by (rule k24)
  show "startedFor (scheduleMusicAt17s c t w)
           (drumsSrc (audioRef (scheduleMusicAt17s c t w))) (drums m) Drums t"
    unfolding w'_def [symmetric] refs sf by (rule k34)
  show "startedFor (scheduleMusicAt17s c t w)
           (vocalsSrc (audioRef (scheduleMusicAt17s c t w))) (vocals m) Vocals t"
    unfolding w'_def [symmetric] refs sf by (rule s4)
qed

lemma scheduleMusicAt17s_cases:
  obtains (not_ready) "\<not> gainsReady w"
  | (not_loaded) "gainsReady w" "\<not> stemsLoaded w"
  | (loaded) gO m where "gainsReady w" "gainOther (audioRef w) = Some gO"
      "musicBuffersRef w (currentSelected w) = Some m" "other m \<noteq> None"
proof (cases "gainsReady w")
  case False
  then show ?thesis by (rule not_ready)
next
  case True
  show ?thesis
  proof (cases "stemsLoaded w")
    case False
    with True show ?thesis by (rule not_loaded)
  next
    case sl: True
    from True obtain gO where gO: "gainOther (audioRef w) = Some gO"
      by (auto simp: gainsReady_def)
    from sl obtain m where m: "musicBuffersRef w (currentSelected w) = Some m" "other m \<noteq> None"
      by (auto simp: stemsLoaded_def split: option.splits)
    from True gO m show ?thesis by (rule loaded)
  qed
qed

lemma scheduleMusicAt17s_frame_all:
  "stateRef (scheduleMusicAt17s c t w) = stateRef w
   \<and> stage (scheduleMusicAt17s c t w) = stage w
   \<and> contexts (scheduleMusicAt17s c t w) = contexts w
   \<and> wall (scheduleMusicAt17s c t w) = wall w
   \<and> startTime (audioRef (scheduleMusicAt17s c t w)) = startTime (audioRef w)
   \<and> ctx (audioRef (scheduleMusicAt17s c t w)) = ctx (audioRef w)
   \<and> clockSrc (audioRef (scheduleMusicAt17s c t w)) = clockSrc (audioRef w)
   \<and> gainClock (audioRef (scheduleMusicAt17s c t w)) = gainClock (audioRef w)
   \<and> gainBass (audioRef (scheduleMusicAt17s c t w)) = gainBass (audioRef w)
   \<and> gainDrums (audioRef (scheduleMusicAt17s c t w)) = gainDrums (audioRef w)
   \<and> gainVocals (audioRef (scheduleMusicAt17s c t w)) = gainVocals (audioRef w)
   \<and> musicBuffersRef (scheduleMusicAt17s c t w) = musicBuffersRef w
   \<and> selectedMusicRef (scheduleMusicAt17s c t w) = selectedMusicRef w
   \<and> selectedMusic (scheduleMusicAt17s c t w) = selectedMusic w"
proof (cases w rule: scheduleMusicAt17s_cases)
  case not_ready
  then show ?thesis by (simp add: scheduleMusicAt17s_not_ready)
next
  case not_loaded
  then show ?thesis by (simp add: scheduleMusicAt17s_not_loaded)
next
  case (loaded gO m)
  show ?thesis
    by (simp add: scheduleMusicAt17s_loaded_eq [OF loaded] Let_def setTimeout_def createSrc_frame
        stateRef_createSrc)
qed

lemma scheduleMusicAt17s_frame:
  "stateRef (scheduleMusicAt17s c t w) = stateRef w"
  "stage (scheduleMusicAt17s c t w) = stage w"
  "contexts (scheduleMusicAt17s c t w) = contexts w"
  "wall (scheduleMusicAt17s c t w) = wall w"
  "startTime (audioRef (scheduleMusicAt17s c t w)) = startTime (audioRef w)"
  "ctx (audioRef (scheduleMusicAt17s c t w)) = ctx (audioRef w)"
  "clockSrc (audioRef (scheduleMusicAt17s c t w)) = clockSrc (audioRef w)"
  "gainClock (audioRef (scheduleMusicAt17s c t w)) = gainClock (audioRef w)"
  "gainBass (audioRef (scheduleMusicAt17s c t w)) = gainBass (audioRef w)"
  "gainDrums (audioRef (scheduleMusicAt17s c t w)) = gainDrums (audioRef w)"
  "gainVocals (audioRef (scheduleMusicAt17s c t w)) = gainVocals (audioRef w)"
  "musicBuffersRef (scheduleMusicAt17s c t w) = musicBuffersRef w"
  "currentSelected (scheduleMusicAt17s c t w) = currentSelected w"
  using scheduleMusicAt17s_frame_all [of c t w] by (simp_all add: currentSelected_def)

lemma scheduleMusicAt17s_old_sources:
  assumes "j < nextSource w"
  shows "sources (scheduleMusicAt17s c t w) j = sources w j"
proof (cases w rule: scheduleMusicAt17s_cases)
  case not_ready
  then show ?thesis by (simp add: scheduleMusicAt17s_not_ready)
next
  case not_loaded
  then show ?thesis by (simp add: scheduleMusicAt17s_not_loaded)
next
  case (loaded gO m)
  define r1 where "r1 = createSrc t (other m) Other w"
  define r2 where "r2 = createSrc t (bass m) Bass (snd r1)"
  define r3 where "r3 = createSrc t (drums m) Drums (snd r2)"
  define r4 where "r4 = createSrc t (vocals m) Vocals (snd r3)"
  have n: "nextSource w \<le> nextSource (snd r1)" "nextSource (snd r1) \<le> nextSource (snd r2)"
      "nextSource (snd r2) \<le> nextSource (snd r3)"
    unfolding r1_def r2_def r3_def by (rule createSrc_nextSource)+
  from assms n have j: "j < nextSource (snd r1)" "j < nextSource (snd r2)" "j < nextSource (snd r3)"
    by simp_all
  have "sources (scheduleMusicAt17s c t w) j = sources (snd r4) j"
    by (simp add: scheduleMusicAt17s_loaded_eq [OF loaded] Let_def setTimeout_def
        r1_def r2_def r3_def r4_def)
  also have "\<dots> = sources (snd r3) j"
    unfolding r4_def using j(3) by (rule createSrc_old_sources)
  also have "\<dots> = sources (snd r2) j"
    unfolding r3_def using j(2) by (rule createSrc_old_sources)
  also have "\<dots> = sources (snd r1) j"
    unfolding r2_def using j(1) by (rule createSrc_old_sources)
  also have "\<dots> = sources w j"
    unfolding r1_def using assms by (rule createSrc_old_sources)
  finally show ?thesis .
qed

subsection \<open>releaseLoop\<close>

lemma releaseLoop_eq:
  assumes "ctx (audioRef w) = Some c" "clockSrc (audioRef w) = Some i"
  shows "releaseLoop w =
     scheduleMusicAt17s c
       (double (currentLoopEnd (startTime (audioRef w)) (currentTime (contexts w c))
          + vocalStartTime CONFIG))
       (w\<lparr> sources := (sources w)(i := (sources w i)\<lparr> loop := False \<rparr>),
           stateRef := (stateRef w)\<lparr> isLooping := False \<rparr>,
           statusText := ''SYNC COMPLETE...'' \<rparr>)"
  by (simp add: releaseLoop_def assms Let_def)

lemma floor_plus_one_ceiling:
  fixes y :: real
  shows "\<lfloor>y\<rfloor> + 1 = \<lceil>y\<rceil> + (if y \<in> \<int> then 1 else 0)"
proof (cases "y \<in> \<int>")
  case True
  then obtain z :: int where "y = of_int z" by (auto elim: Ints_cases)
  then show ?thesis by simp
next
  case False
  then show ?thesis by (simp add: ceiling_altdef)
      (metis Ints_of_int)
qed

lemma heldUntil_eval:
  "audioRef (heldUntil 12) = audioRef demoSession"
  "audioRef (heldUntil 14) = audioRef demoSession"
  "audioRef demoSession =
     \<lparr> ctx = Some 0, clockSrc = Some 0, otherSrc = None, bassSrc = None, drumsSrc = None,
       vocalsSrc = None, gainClock = Some newGain, gainOther = Some newGain,
       gainBass = Some newGain, gainDrums = Some newGain, gainVocals = Some newGain,
       startTime = 0 \<rparr>"
  "contexts (heldUntil 12) 0 = \<lparr> currentTime = 12, cstate = Running \<rparr>"
  "contexts (heldUntil 14) 0 = \<lparr> currentTime = 14, cstate = Running \<rparr>"
  "wall (heldUntil 12) = 12000" "wall (heldUntil 14) = 14000"
  "timers (heldUntil 12) = []" "timers (heldUntil 14) = []"
  "nextSource (heldUntil 12) = 1" "nextSource (heldUntil 14) = 1"
  "currentSelected (heldUntil 12) = ''Misty''" "currentSelected (heldUntil 14) = ''Misty''"
  "musicBuffersRef (heldUntil 12) ''Misty'' = Some demoStems"
  "musicBuffersRef (heldUntil 14) ''Misty'' = Some demoStems"
  "stateRef (heldUntil 12) =
     \<lparr> gauge = 99.9, visualGauge = 0, isLooping = True, vocalActive = False, isLeaning = True \<rparr>"
  "stage (heldUntil 12) = Stage1"
  by (simp_all add: demo_defs engine_defs)

lemma releaseLoop_loaded:
  fixes w :: world and c i :: nat
  defines "ms \<equiv> double (currentLoopEnd (startTime (audioRef w)) (currentTime (contexts w c))
      + vocalStartTime CONFIG)"
  assumes "ctx (audioRef w) = Some c" "clockSrc (audioRef w) = Some i" "i < nextSource w"
    and "gainsReady w" "gainOther (audioRef w) = Some gO"
    and "musicBuffersRef w (currentSelected w) = Some m" "other m \<noteq> None"
  shows "loop (sources (releaseLoop w) i) = False"
    and "isLooping (stateRef (releaseLoop w)) = False"
    and "timers (releaseLoop w) =
          timers w @ [\<lparr> due = wall w + max 0 (ms - currentTime (contexts w c)) * 1000,
                         cb = ActivateMix \<rparr>]"
    and "gainOther (audioRef (releaseLoop w)) = Some (setValueAtTime 1.0 ms gO)"
    and "startedFor (releaseLoop w) (otherSrc (audioRef (releaseLoop w))) (other m) Other ms"
    and "startedFor (releaseLoop w) (bassSrc (audioRef (releaseLoop w))) (bass m) Bass ms"
    and "startedFor (releaseLoop w) (drumsSrc (audioRef (releaseLoop w))) (drums m) Drums ms"
    and "startedFor (releaseLoop w) (vocalsSrc (audioRef (releaseLoop w))) (vocals m) Vocals ms"
proof -
  define w1 where "w1 = w\<lparr> sources := (sources w)(i := (sources w i)\<lparr> loop := False \<rparr>),
           stateRef := (stateRef w)\<lparr> isLooping := False \<rparr>,
           statusText := ''SYNC COMPLETE...'' \<rparr>"
  have eq: "releaseLoop w = scheduleMusicAt17s c ms w1"
    unfolding ms_def w1_def using assms(2,3) by (rule releaseLoop_eq)
  have cs: "currentSelected w1 = currentSelected w"
    by (simp add: w1_def currentSelected_def)
  have w1: "gainsReady w1" "gainOther (audioRef w1) = Some gO"
      "musicBuffersRef w1 (currentSelected w1) = Some m"
      "timers w1 = timers w" "wall w1 = wall w" "contexts w1 = contexts w"
      "i < nextSource w1" "loop (sources w1 i) = False" "isLooping (stateRef w1) = False"
    unfolding cs using assms(4-7) by (simp_all add: w1_def gainsReady_def)
  note S = scheduleMusicAt17s_loaded [OF w1(1,2,3) assms(8), of c ms]
  show "loop (sources (releaseLoop w) i) = False"
    unfolding eq using scheduleMusicAt17s_old_sources [OF w1(7), of c ms] w1(8) by simp
  show "isLooping (stateRef (releaseLoop w)) = False"
    unfolding eq by (simp add: scheduleMusicAt17s_frame w1(9))
  show "timers (releaseLoop w) =
          timers w @ [\<lparr> due = wall w + max 0 (ms - currentTime (contexts w c)) * 1000,
                         cb = ActivateMix \<rparr>]"
    unfolding eq using S(1) by (simp add: w1)
  show "gainOther (audioRef (releaseLoop w)) = Some (setValueAtTime 1.0 ms gO)"
    unfolding eq by (rule S(2))
  show "startedFor (releaseLoop w) (otherSrc (audioRef (releaseLoop w))) (other m) Other ms"
    unfolding eq by (rule S(3))
  show "startedFor (releaseLoop w) (bassSrc (audioRef (releaseLoop w))) (bass m) Bass ms"
    unfolding eq by (rule S(4))
  show "startedFor (releaseLoop w) (drumsSrc (audioRef (releaseLoop w))) (drums m) Drums ms"
    unfolding eq by (rule S(5))
  show "startedFor (releaseLoop w) (vocalsSrc (audioRef (releaseLoop w))) (vocals m) Vocals ms"
    unfolding eq by (rule S(6))
qed

text \<open>
  C1, with \<open>floor + 1\<close> where the claim has \<open>ceil\<close>. With a context and a clock source,
  \<^verbatim>\<open>releaseLoop\<close> clears the clock's \<^verbatim>\<open>loop\<close> flag and \<^verbatim>\<open>isLooping\<close>, and computes in double
  arithmetic the loop-release instant \<open>start + (floor ((now - start) / loopEndTime) + 1) *
  loopEndTime\<close> (\<open>currentLoopEnd\<close>). For a call at a double \<open>now\<close>, at or after the anchor
  \<open>start \<ge> 0\<close> and less than \<open>2 ^ 40\<close> seconds after it: the number \<open>k\<close> of loops is an integer,
  at least 1; the instant is the anchor offset by \<open>k * loopEndTime\<close>, the sum rounded to a
  double; and it is not before the call. \<open>k\<close> is the \<open>ceil\<close> of the quotient computed, and
  one more when that quotient is an integer. The mix start is the release instant plus
  \<^verbatim>\<open>vocalStartTime\<close> = 17, rounded, and (gains present, selected folder buffered) the
  callback is due after the wall-clock delay \<open>max 0 (mixStartInstant - now)\<close> seconds, the
  accompaniment gain is set to 1 at the mix start and every buffered stem is started
  there.
\<close>

theorem releaseLoop_schedules_mix:
  fixes w :: world and c i :: nat
  defines "now \<equiv> currentTime (contexts w c)" and "start \<equiv> startTime (audioRef w)"
  defines "q \<equiv> double (double (now - start) / loopEndTime CONFIG)"
  defines "k \<equiv> \<lfloor>q\<rfloor> + 1"
  defines "loopReleaseInstant \<equiv> currentLoopEnd start now"
  defines "mixStartInstant \<equiv> double (loopReleaseInstant + vocalStartTime CONFIG)"
  assumes "ctx (audioRef w) = Some c" "clockSrc (audioRef w) = Some i" "i < nextSource w"
    and "gainsReady w" "gainOther (audioRef w) = Some gO"
    and "musicBuffersRef w (currentSelected w) = Some m" "other m \<noteq> None"
    and "0 \<le> start" "start \<le> now" "now - start < 2 ^ 40" "double now = now"
  shows "loop (sources (releaseLoop w) i) = False
     \<and> isLooping (stateRef (releaseLoop w)) = False
     \<and> 1 \<le> k
     \<and> loopReleaseInstant = double (start + of_int k * loopEndTime CONFIG)
     \<and> now \<le> loopReleaseInstant
     \<and> k = \<lceil>q\<rceil> + (if q \<in> \<int> then 1 else 0)
     \<and> vocalStartTime CONFIG = 17
     \<and> timers (releaseLoop w) =
          timers w @ [\<lparr> due = wall w + max 0 (mixStartInstant - now) * 1000, cb = ActivateMix \<rparr>]
     \<and> gainOther (audioRef (releaseLoop w)) = Some (setValueAtTime 1.0 mixStartInstant gO)
     \<and> startedFor (releaseLoop w) (otherSrc (audioRef (releaseLoop w))) (other m) Other mixStartInstant
     \<and> startedFor (releaseLoop w) (bassSrc (audioRef (releaseLoop w))) (bass m) Bass mixStartInstant
     \<and> startedFor (releaseLoop w) (drumsSrc (audioRef (releaseLoop w))) (drums m) Drums mixStartInstant
     \<and> startedFor (releaseLoop w) (vocalsSrc (audioRef (releaseLoop w))) (vocals m) Vocals mixStartInstant"
proof -
  have L: "vocalStartTime CONFIG = 17" by (simp add: CONFIG_def)
  have ms: "mixStartInstant = double (currentLoopEnd start now + vocalStartTime CONFIG)"
    by (simp add: mixStartInstant_def loopReleaseInstant_def)
  note S = releaseLoop_loaded [OF assms(7-13), folded now_def start_def, folded ms]
  note P = currentLoopEnd_props [OF assms(14-17), folded q_def, folded k_def,
      folded loopReleaseInstant_def]
  have e: "k = \<lceil>q\<rceil> + (if q \<in> \<int> then 1 else 0)"
    unfolding k_def by (rule floor_plus_one_ceiling)
  from S(1,2) P(1,2,3) e L S(3-8) show ?thesis
    by (intro conjI)
qed

theorem releaseLoop_schedules_mix_witness:
  "loop (sources (releaseLoop (heldUntil 12)) 0) = False
   \<and> isLooping (stateRef (releaseLoop (heldUntil 12))) = False
   \<and> currentLoopEnd 0 12 = double (0 + 2 * 7)
   \<and> (12::real) \<le> currentLoopEnd 0 12
   \<and> timers (releaseLoop (heldUntil 12)) = [\<lparr> due = 31000, cb = ActivateMix \<rparr>]
   \<and> gainOther (audioRef (releaseLoop (heldUntil 12))) = Some (setValueAtTime 1 31 newGain)
   \<and> startedFor (releaseLoop (heldUntil 12)) (otherSrc (audioRef (releaseLoop (heldUntil 12))))
        (other demoStems) Other 31"
proof -
  have h: "ctx (audioRef (heldUntil 12)) = Some 0" "clockSrc (audioRef (heldUntil 12)) = Some 0"
      "0 < nextSource (heldUntil 12)" "gainsReady (heldUntil 12)"
      "gainOther (audioRef (heldUntil 12)) = Some newGain"
      "musicBuffersRef (heldUntil 12) (currentSelected (heldUntil 12)) = Some demoStems"
      "other demoStems \<noteq> None"
      "0 \<le> startTime (audioRef (heldUntil 12))"
      "startTime (audioRef (heldUntil 12)) \<le> currentTime (contexts (heldUntil 12) 0)"
      "currentTime (contexts (heldUntil 12) 0) - startTime (audioRef (heldUntil 12)) < 2 ^ 40"
      "double (currentTime (contexts (heldUntil 12) 0)) = currentTime (contexts (heldUntil 12) 0)"
    by (simp_all add: heldUntil_eval gainsReady_def demoStems_def double_numeral)
  have v: "\<lfloor>double (12 / 7)\<rfloor> = 1" by (simp add: double_12_7)
  note T = releaseLoop_schedules_mix [OF h]
  show ?thesis
    using T by (simp add: heldUntil_eval CONFIG_def v double_numeral currentLoopEnd_0_12)
qed

text \<open>
  C1 as stated fails when \<open>now - start\<close> is an exact multiple of \<open>loopEndTime\<close>. Fourteen
  seconds into the example session the formula of the claim gives the release instant
  \<open>0 + ceil (14 / 7) * 7 = 14\<close> (in exact and in double arithmetic alike: every number
  is a small integer) and the mix start 31; the code releases at 21 and starts the mix
  at 38, the callback being due 24 seconds after the call.
\<close>

theorem releaseLoop_at_loop_boundary_counterexample:
  "currentTime (contexts (heldUntil 14) 0) = 14
   \<and> startTime (audioRef (heldUntil 14)) = 0
   \<and> startTime (audioRef (heldUntil 14))
        + of_int \<lceil>(currentTime (contexts (heldUntil 14) 0) - startTime (audioRef (heldUntil 14)))
                    / loopEndTime CONFIG\<rceil> * loopEndTime CONFIG = 14
   \<and> double (startTime (audioRef (heldUntil 14))
        + double (double (of_int \<lceil>double (double (currentTime (contexts (heldUntil 14) 0)
                      - startTime (audioRef (heldUntil 14))) / loopEndTime CONFIG)\<rceil>)
            * loopEndTime CONFIG)) = 14
   \<and> currentLoopEnd (startTime (audioRef (heldUntil 14))) (currentTime (contexts (heldUntil 14) 0)) = 21
   \<and> timers (releaseLoop (heldUntil 14)) = [\<lparr> due = 14000 + (21 + 17 - 14) * 1000, cb = ActivateMix \<rparr>]
   \<and> timers (step (Frame 0) (heldUntil 14)) = [\<lparr> due = 38000, cb = ActivateMix \<rparr>]
   \<and> otherSrc (audioRef (releaseLoop (heldUntil 14))) = Some 1
   \<and> startedAt (sources (releaseLoop (heldUntil 14)) 1) = Some 38
   \<and> gainOther (audioRef (releaseLoop (heldUntil 14))) = Some \<lparr> gval = 0, events = [SetValueAtTime 1 38] \<rparr>"
  by (simp add: demo_defs engine_defs)

text \<open>
  Rounding can bring the release to the call itself. With the anchor at 1.2 and the call
  at 8.2 (as doubles; both are whole render quanta at 48 kHz) the elapsed time computes
  to \<open>7 - 2 ^ - 50\<close>, the quotient to \<open>1 - 2 ^ - 53\<close> and its floor to 0: the release instant is
  \<open>double (1.2 + 7)\<close>, which is the call instant, and the mix starts at \<open>double 25.2\<close>, 17
  seconds after the call. In exact arithmetic 7.0 seconds have elapsed and the end of the
  next iteration is 15.2.
\<close>

lemma double_examples:
  "double (12/10) = 5404319552844595 / 2 ^ 52"
  "double (82/10) = 2308094809027379 / 2 ^ 48"
  "double (252/10) = 7093169413108531 / 2 ^ 48"
  "double (2308094809027379 / 2 ^ 48 - 5404319552844595 / 2 ^ 52) = 7881299347898367 / 2 ^ 50"
  "double (7881299347898367 / 2 ^ 50 / 7) = 9007199254740991 / 2 ^ 53"
  "double (5404319552844595 / 2 ^ 52 + 7) = 2308094809027379 / 2 ^ 48"
  "double (2308094809027379 / 2 ^ 48 + 17) = 7093169413108531 / 2 ^ 48"
  using double_eval [of "12/10" 0] double_eval [of "82/10" 3] double_eval [of "252/10" 4]
    double_eval [of "2308094809027379 / 2 ^ 48 - 5404319552844595 / 2 ^ 52" 2]
    double_eval [of "7881299347898367 / 2 ^ 50 / 7" "-1"]
    double_eval [of "5404319552844595 / 2 ^ 52 + 7" 3]
    double_eval [of "2308094809027379 / 2 ^ 48 + 17" 4]
  by (simp_all add: roundEven_def Let_def)

lemma releaseLoop_release_at_call:
  "currentLoopEnd (double (12/10)) (double (82/10)) = double (82/10)"
  "double (currentLoopEnd (double (12/10)) (double (82/10)) + vocalStartTime CONFIG) = double (252/10)"
  "max 0 (double (252/10) - double (82/10)) * 1000 = (17000 :: real)"
  "(12/10 :: real) + (of_int \<lfloor>(82/10 - 12/10) / (7 :: real)\<rfloor> + 1) * 7 = 152/10"
proof -
  have c7: "loopEndTime CONFIG = 7" by (simp add: CONFIG_def)
  have c17: "vocalStartTime CONFIG = 17" by (simp add: CONFIG_def)
  have "currentLoopEnd (double (12/10)) (double (82/10))
      = double (5404319552844595 / 2 ^ 52
          + double (double (of_int \<lfloor>9007199254740991 / 2 ^ 53 :: real\<rfloor> + 1) * 7))"
    unfolding currentLoopEnd_def Let_def c7 by (simp only: double_examples)
  also have "\<dots> = double (5404319552844595 / 2 ^ 52 + 7)"
    by (simp add: double_1 double_numeral)
  also have "\<dots> = double (82/10)"
    by (simp only: double_examples)
  finally show c: "currentLoopEnd (double (12/10)) (double (82/10)) = double (82/10)" .
  show "double (currentLoopEnd (double (12/10)) (double (82/10)) + vocalStartTime CONFIG)
      = double (252/10)"
    unfolding c c17 by (simp only: double_examples)
  show "max 0 (double (252/10) - double (82/10)) * 1000 = (17000 :: real)"
    unfolding double_examples by simp
  show "(12/10 :: real) + (of_int \<lfloor>(82/10 - 12/10) / (7 :: real)\<rfloor> + 1) * 7 = 152/10"
    by simp
qed

subsection \<open>While the loop is released\<close>

lemma audioControl_released:
  assumes "\<not> isLooping (stateRef w)"
  shows "sources (snd (audioControl w)) = sources w
     \<and> timers (snd (audioControl w)) = timers w
     \<and> wall (snd (audioControl w)) = wall w
     \<and> contexts (snd (audioControl w)) = contexts w
     \<and> stage (snd (audioControl w)) = stage w
     \<and> stateRef (snd (audioControl w)) = stateRef w
     \<and> otherSrc (audioRef (snd (audioControl w))) = otherSrc (audioRef w)
     \<and> bassSrc (audioRef (snd (audioControl w))) = bassSrc (audioRef w)
     \<and> drumsSrc (audioRef (snd (audioControl w))) = drumsSrc (audioRef w)
     \<and> vocalsSrc (audioRef (snd (audioControl w))) = vocalsSrc (audioRef w)
     \<and> gainOther (audioRef (snd (audioControl w))) = gainOther (audioRef w)"
proof (cases "ctx (audioRef w)")
  case None
  then show ?thesis by (simp add: audioControl_def)
next
  case (Some c)
  show ?thesis
  proof (cases "gainClock (audioRef w)")
    case None
    with Some show ?thesis by (simp add: audioControl_def)
  next
    case gc: (Some g)
    show ?thesis
    proof (cases "vocalActive (stateRef w)")
      case True
      with Some gc assms show ?thesis by (simp add: audioControl_def Let_def split_beta)
    next
      case False
      with Some gc assms show ?thesis by (simp add: audioControl_def Let_def)
    qed
  qed
qed

lemma gameLoop_released:
  assumes "\<not> isLooping (stateRef w)"
  shows "sources (gameLoop time w) = sources w
     \<and> timers (gameLoop time w) = timers w
     \<and> wall (gameLoop time w) = wall w
     \<and> stage (gameLoop time w) = stage w
     \<and> \<not> isLooping (stateRef (gameLoop time w))
     \<and> otherSrc (audioRef (gameLoop time w)) = otherSrc (audioRef w)
     \<and> bassSrc (audioRef (gameLoop time w)) = bassSrc (audioRef w)
     \<and> drumsSrc (audioRef (gameLoop time w)) = drumsSrc (audioRef w)
     \<and> vocalsSrc (audioRef (gameLoop time w)) = vocalsSrc (audioRef w)
     \<and> gainOther (audioRef (gameLoop time w)) = gainOther (audioRef w)"
proof -
  have i: "\<not> isLooping (stateRef (inputLogic w))" using assms by (simp add: inputLogic_frame)
  have f: "sources (inputLogic w) = sources w" "timers (inputLogic w) = timers w"
      "wall (inputLogic w) = wall w" "stage (inputLogic w) = stage w"
    by (simp_all add: inputLogic_def Let_def)
  show ?thesis
    using audioControl_released [OF i] i
    by (simp add: gameLoop_def visualUpdate_def split_beta f inputLogic_frame)
qed

lemma step_quiet_released:
  assumes "\<not> isLooping (stateRef w)" "quiet e"
  shows "sources (step e w) = sources w
     \<and> timers (step e w) = timers w
     \<and> wall w \<le> wall (step e w)
     \<and> stage (step e w) = stage w
     \<and> \<not> isLooping (stateRef (step e w))
     \<and> otherSrc (audioRef (step e w)) = otherSrc (audioRef w)
     \<and> bassSrc (audioRef (step e w)) = bassSrc (audioRef w)
     \<and> drumsSrc (audioRef (step e w)) = drumsSrc (audioRef w)
     \<and> vocalsSrc (audioRef (step e w)) = vocalsSrc (audioRef w)
     \<and> gainOther (audioRef (step e w)) = gainOther (audioRef w)"
proof (cases e)
  case (Frame t)
  then show ?thesis using gameLoop_released [OF assms(1), of t] by simp
next
  case (KeyDown k)
  with assms(1) show ?thesis by (simp add: handleDown_def)
next
  case (KeyUp k)
  with assms(1) show ?thesis by (simp add: handleUp_def)
next
  case (Elapse dt)
  with assms(1) show ?thesis by (simp add: elapse_def)
next
  case (Timeout i)
  with assms(2) show ?thesis by simp
next
  case ClickStop
  with assms(2) show ?thesis by simp
qed

lemma run_quiet_released:
  "\<not> isLooping (stateRef w) \<Longrightarrow> list_all quiet es \<Longrightarrow>
   sources (run es w) = sources w
     \<and> timers (run es w) = timers w
     \<and> wall w \<le> wall (run es w)
     \<and> stage (run es w) = stage w
     \<and> \<not> isLooping (stateRef (run es w))
     \<and> otherSrc (audioRef (run es w)) = otherSrc (audioRef w)
     \<and> bassSrc (audioRef (run es w)) = bassSrc (audioRef w)
     \<and> drumsSrc (audioRef (run es w)) = drumsSrc (audioRef w)
     \<and> vocalsSrc (audioRef (run es w)) = vocalsSrc (audioRef w)
     \<and> gainOther (audioRef (run es w)) = gainOther (audioRef w)"
proof (induction es arbitrary: w)
  case Nil
  then show ?case by simp
next
  case (Cons e es)
  from Cons.prems have q: "quiet e" "list_all quiet es" by simp_all
  note s = step_quiet_released [OF Cons.prems(1) q(1)]
  from s have n: "\<not> isLooping (stateRef (step e w))" by simp
  note r = Cons.IH [OF n q(2)]
  from s r show ?case by simp
qed

lemma startedFor_cong:
  "sources w' = sources w \<Longrightarrow> startedFor w' r b g t = startedFor w r b g t"
  by (simp add: startedFor_def split: option.splits)

text \<open>
  C5. Let the loop be released at audio time \<open>now\<close> (context, clock source and gains
  present, the selected folder buffered), let \<open>mixStartInstant\<close> be the instant
  \<^verbatim>\<open>releaseLoop\<close> computes there, and let the session run on, frames, keys and time in any
  number, until the deferred callback fires, at its due time or later. The callback is
  the one pending timer that \<^verbatim>\<open>releaseLoop\<close> added. In the state it leaves, every
  buffered stem has a source started at \<open>mixStartInstant\<close> (and a missing stem none), the
  accompaniment gain is set to 1 at \<open>mixStartInstant\<close>, the gauge is 0, \<^verbatim>\<open>vocalActive\<close>
  is set and the stage is 2. None of these instants depends on when the callback ran.
\<close>

theorem mix_activation_at_computed_instant:
  fixes w :: world and c i :: nat and es :: "event list"
  defines "now \<equiv> currentTime (contexts w c)" and "start \<equiv> startTime (audioRef w)"
  defines "mixStartInstant \<equiv> double (currentLoopEnd start now + vocalStartTime CONFIG)"
  defines "waiting \<equiv> run es (releaseLoop w)"
  defines "fired \<equiv> fireTimer (length (timers w)) waiting"
  assumes "ctx (audioRef w) = Some c" "clockSrc (audioRef w) = Some i" "i < nextSource w"
    and "gainsReady w" "gainOther (audioRef w) = Some gO"
    and "musicBuffersRef w (currentSelected w) = Some m" "other m \<noteq> None"
    and "list_all quiet es"
    and "wall w + max 0 (mixStartInstant - now) * 1000 \<le> wall waiting"
  shows "timers waiting =
           timers w @ [\<lparr> due = wall w + max 0 (mixStartInstant - now) * 1000, cb = ActivateMix \<rparr>]
     \<and> timers fired = timers w
     \<and> startedFor fired (otherSrc (audioRef fired)) (other m) Other mixStartInstant
     \<and> startedFor fired (bassSrc (audioRef fired)) (bass m) Bass mixStartInstant
     \<and> startedFor fired (drumsSrc (audioRef fired)) (drums m) Drums mixStartInstant
     \<and> startedFor fired (vocalsSrc (audioRef fired)) (vocals m) Vocals mixStartInstant
     \<and> gainOther (audioRef fired) = Some (setValueAtTime 1.0 mixStartInstant gO)
     \<and> gauge (stateRef fired) = 0
     \<and> vocalActive (stateRef fired)
     \<and> stage fired = Stage2"
proof -
  define T where "T = \<lparr> due = wall w + max 0 (mixStartInstant - now) * 1000, cb = ActivateMix \<rparr>"
  note R = releaseLoop_loaded [OF assms(6-12), folded now_def start_def,
      folded mixStartInstant_def, folded T_def]
  have n: "\<not> isLooping (stateRef (releaseLoop w))" using R(2) by simp
  note Q = run_quiet_released [OF n assms(13), folded waiting_def]
  have tw: "timers waiting = timers w @ [T]" using Q R(3) by simp
  have d: "due T \<le> wall waiting" "cb T = ActivateMix"
    using assms(14) by (simp_all add: T_def)
  have f: "fired = activateMix (waiting\<lparr> timers := timers w \<rparr>)"
    unfolding fired_def using d by (simp add: fireTimer_def tw)
  have fs: "sources fired = sources (releaseLoop w)" "audioRef fired = audioRef waiting"
      "timers fired = timers w" "gauge (stateRef fired) = 0" "vocalActive (stateRef fired)"
      "stage fired = Stage2"
    using Q by (simp_all add: f activateMix_def)
  have refs: "otherSrc (audioRef fired) = otherSrc (audioRef (releaseLoop w))"
      "bassSrc (audioRef fired) = bassSrc (audioRef (releaseLoop w))"
      "drumsSrc (audioRef fired) = drumsSrc (audioRef (releaseLoop w))"
      "vocalsSrc (audioRef fired) = vocalsSrc (audioRef (releaseLoop w))"
      "gainOther (audioRef fired) = gainOther (audioRef (releaseLoop w))"
    using Q by (simp_all add: fs(2))
  have sf: "startedFor fired r b g t = startedFor (releaseLoop w) r b g t" for r b g t
    using fs(1) by (rule startedFor_cong)
  from tw fs(3-6) R(4-8) show ?thesis
    unfolding refs sf T_def by (intro conjI)
qed

theorem mix_activation_at_computed_instant_witness:
  "timers (run [Frame 0, Elapse 19.5, Frame 1] (releaseLoop (heldUntil 12)))
      = [\<lparr> due = 31000, cb = ActivateMix \<rparr>]
   \<and> wall (run [Frame 0, Elapse 19.5, Frame 1] (releaseLoop (heldUntil 12))) = 31500
   \<and> startedFor (fireTimer 0 (run [Frame 0, Elapse 19.5, Frame 1] (releaseLoop (heldUntil 12))))
        (otherSrc (audioRef (fireTimer 0 (run [Frame 0, Elapse 19.5, Frame 1] (releaseLoop (heldUntil 12))))))
        (other demoStems) Other 31
   \<and> gainOther (audioRef (fireTimer 0 (run [Frame 0, Elapse 19.5, Frame 1] (releaseLoop (heldUntil 12)))))
        = Some (setValueAtTime 1 31 newGain)
   \<and> gauge (stateRef (fireTimer 0 (run [Frame 0, Elapse 19.5, Frame 1] (releaseLoop (heldUntil 12))))) = 0
   \<and> stage (fireTimer 0 (run [Frame 0, Elapse 19.5, Frame 1] (releaseLoop (heldUntil 12)))) = Stage2"
proof -
  let ?es = "[Frame 0, Elapse 19.5, Frame 1]"
  have h: "ctx (audioRef (heldUntil 12)) = Some 0" "clockSrc (audioRef (heldUntil 12)) = Some 0"
      "0 < nextSource (heldUntil 12)" "gainsReady (heldUntil 12)"
      "gainOther (audioRef (heldUntil 12)) = Some newGain"
      "musicBuffersRef (heldUntil 12) (currentSelected (heldUntil 12)) = Some demoStems"
      "other demoStems \<noteq> None" "list_all quiet ?es"
    by (simp_all add: heldUntil_eval gainsReady_def demoStems_def)
  have wl: "wall (run ?es (releaseLoop (heldUntil 12))) = 31500"
    by (simp add: demo_defs engine_defs)
  have d: "wall (heldUntil 12)
      + max 0 (double (currentLoopEnd (startTime (audioRef (heldUntil 12)))
                  (currentTime (contexts (heldUntil 12) 0))
          + vocalStartTime CONFIG) - currentTime (contexts (heldUntil 12) 0)) * 1000
      \<le> wall (run ?es (releaseLoop (heldUntil 12)))"
    unfolding wl by (simp add: heldUntil_eval CONFIG_def currentLoopEnd_0_12 double_numeral)
  note T = mix_activation_at_computed_instant [OF h d]
  show ?thesis
    using T wl by (simp add: heldUntil_eval CONFIG_def currentLoopEnd_0_12 double_numeral)
qed

subsection \<open>A release while the selected folder is not buffered\<close>

lemma releaseLoop_not_loaded:
  assumes "ctx (audioRef w) = Some c" "clockSrc (audioRef w) = Some i"
    and "gainsReady w" "\<not> stemsLoaded w"
  shows "releaseLoop w =
     w\<lparr> sources := (sources w)(i := (sources w i)\<lparr> loop := False \<rparr>),
        stateRef := (stateRef w)\<lparr> isLooping := False \<rparr>,
        statusText := ''SYNC COMPLETE...'',
        errorMessage := ''Failed to load music: '' @ currentSelected w \<rparr>"
proof -
  define w1 where "w1 = w\<lparr> sources := (sources w)(i := (sources w i)\<lparr> loop := False \<rparr>),
           stateRef := (stateRef w)\<lparr> isLooping := False \<rparr>,
           statusText := ''SYNC COMPLETE...'' \<rparr>"
  have cs: "currentSelected w1 = currentSelected w"
    by (simp add: w1_def currentSelected_def)
  have mb: "musicBuffersRef w1 = musicBuffersRef w" by (simp add: w1_def)
  have g: "gainsReady w1" "\<not> stemsLoaded w1"
    using assms(3,4) by (simp_all add: gainsReady_def stemsLoaded_def cs mb) (simp_all add: w1_def)
  have "releaseLoop w = w1\<lparr> errorMessage := ''Failed to load music: '' @ currentSelected w1 \<rparr>"
    unfolding releaseLoop_eq [OF assms(1,2)] w1_def [symmetric]
    using g by (rule scheduleMusicAt17s_not_loaded)
  then show ?thesis by (simp add: cs) (simp add: w1_def)
qed

lemma gameLoop_release_not_loaded:
  assumes "ctx (audioRef w) = Some c" "gainClock (audioRef w) = Some gc"
    and "clockSrc (audioRef w) = Some i"
    and "isLooping (stateRef w)" "100 \<le> gauge (stateRef (inputLogic w))"
    and "gainsReady w" "\<not> stemsLoaded w"
  shows "gameLoop time w =
     visualUpdate (gauge (stateRef (inputLogic w)) / 100)
       ((inputLogic w)\<lparr>
          sources := (sources w)(i := (sources w i)\<lparr> loop := False \<rparr>),
          stateRef := (stateRef (inputLogic w))\<lparr> isLooping := False \<rparr>,
          statusText := ''SYNC COMPLETE...'',
          errorMessage := ''Failed to load music: '' @ currentSelected w,
          audioRef := (audioRef w)\<lparr> gainClock :=
            Some (setTargetAtTime (gauge (stateRef (inputLogic w)) / 100)
                    (currentTime (contexts w c)) 0.05 gc) \<rparr> \<rparr>)"
proof -
  define v where "v = inputLogic w"
  have f: "audioRef v = audioRef w" "contexts v = contexts w" "sources v = sources w"
      "isLooping (stateRef v)" "currentSelected v = currentSelected w"
    using assms(4) by (simp_all add: v_def inputLogic_frame inputLogic_def Let_def currentSelected_def)
  have mb: "musicBuffersRef v = musicBuffersRef w" by (simp add: v_def inputLogic_def Let_def)
  have g: "gainsReady v" "\<not> stemsLoaded v"
    using assms(6,7) by (simp_all add: gainsReady_def stemsLoaded_def f mb)
  have h: "ctx (audioRef v) = Some c" "clockSrc (audioRef v) = Some i"
      "gainClock (audioRef v) = Some gc"
    using assms(1-3) by (simp_all add: f)
  note R = releaseLoop_not_loaded [OF h(1,2) g]
  have a: "audioControl v =
      (gauge (stateRef v) / 100,
       (releaseLoop v)\<lparr> audioRef := (audioRef (releaseLoop v))\<lparr> gainClock :=
          map_option (setTargetAtTime (gauge (stateRef v) / 100)
             (currentTime (contexts (releaseLoop v) c)) 0.05) (gainClock (audioRef (releaseLoop v))) \<rparr> \<rparr>)"
    using assms(5) h f(4) by (simp add: audioControl_def Let_def v_def [symmetric])
  show ?thesis
    unfolding gameLoop_def v_def [symmetric] a
    by (simp add: R f h assms(2))
qed

lemma no_second_attempt:
  assumes "\<not> isLooping (stateRef w)" "list_all quiet es"
  shows "timers (run es (w\<lparr> musicBuffersRef := bufs \<rparr>)) = timers w
     \<and> stage (run es (w\<lparr> musicBuffersRef := bufs \<rparr>)) = stage w
     \<and> sources (run es (w\<lparr> musicBuffersRef := bufs \<rparr>)) = sources w
     \<and> otherSrc (audioRef (run es (w\<lparr> musicBuffersRef := bufs \<rparr>))) = otherSrc (audioRef w)"
proof -
  have n: "\<not> isLooping (stateRef (w\<lparr> musicBuffersRef := bufs \<rparr>))" using assms(1) by simp
  from run_quiet_released [OF n assms(2)] show ?thesis by simp
qed

text \<open>
  C6, without the retry. A frame saturates the gauge while the clock is looping (context,
  clock source and gains present) and the selected folder is not buffered, or has no
  accompaniment: the mix start that \<^verbatim>\<open>releaseLoop\<close> attempts fails with the message
  \<^verbatim>\<open>Failed to load music: <folder>\<close>. The stage is what it was, the gauge is what the frame
  had computed, the anchor (\<^verbatim>\<open>startTime\<close>) is what it was; no timer is added or removed, no
  source is created, no stem is bound and the accompaniment gain is not touched. The
  release itself has taken effect by then: the clock's \<^verbatim>\<open>loop\<close> flag and \<^verbatim>\<open>isLooping\<close> are
  cleared and the status reads \<^verbatim>\<open>SYNC COMPLETE...\<close>.
\<close>

theorem release_without_buffers:
  fixes w :: world and time :: real and c i :: nat
  defines "attempt \<equiv> gameLoop time w"
  assumes "ctx (audioRef w) = Some c" "gainClock (audioRef w) = Some gc"
    and "clockSrc (audioRef w) = Some i"
    and "isLooping (stateRef w)" "100 \<le> gauge (stateRef (inputLogic w))"
    and "gainsReady w" "\<not> stemsLoaded w"
  shows "errorMessage attempt = ''Failed to load music: '' @ currentSelected w
     \<and> stage attempt = stage w
     \<and> gauge (stateRef attempt) = gauge (stateRef (inputLogic w))
     \<and> vocalActive (stateRef attempt) = vocalActive (stateRef w)
     \<and> startTime (audioRef attempt) = startTime (audioRef w)
     \<and> timers attempt = timers w
     \<and> nextSource attempt = nextSource w
     \<and> sources attempt = (sources w)(i := (sources w i)\<lparr> loop := False \<rparr>)
     \<and> otherSrc (audioRef attempt) = otherSrc (audioRef w)
     \<and> bassSrc (audioRef attempt) = bassSrc (audioRef w)
     \<and> drumsSrc (audioRef attempt) = drumsSrc (audioRef w)
     \<and> vocalsSrc (audioRef attempt) = vocalsSrc (audioRef w)
     \<and> gainOther (audioRef attempt) = gainOther (audioRef w)
     \<and> \<not> isLooping (stateRef attempt)
     \<and> statusText attempt = ''SYNC COMPLETE...''"
proof -
  have f: "stage (inputLogic w) = stage w" "timers (inputLogic w) = timers w"
      "nextSource (inputLogic w) = nextSource w"
      "vocalActive (stateRef (inputLogic w)) = vocalActive (stateRef w)"
    by (simp_all add: inputLogic_def Let_def)
  show ?thesis
    unfolding attempt_def gameLoop_release_not_loaded [OF assms(2-8)]
    by (simp add: visualUpdate_def f)
qed

lemma unbufferedHeld_eval:
  "audioRef unbufferedHeld =
     \<lparr> ctx = Some 0, clockSrc = Some 0, otherSrc = None, bassSrc = None, drumsSrc = None,
       vocalsSrc = None, gainClock = Some newGain, gainOther = Some newGain,
       gainBass = Some newGain, gainDrums = Some newGain, gainVocals = Some newGain,
       startTime = 0 \<rparr>"
  "stateRef unbufferedHeld =
     \<lparr> gauge = 99.9, visualGauge = 0, isLooping = True, vocalActive = False, isLeaning = True \<rparr>"
  "timers unbufferedHeld = []" "stage unbufferedHeld = Stage1"
  "currentSelected unbufferedHeld = ''Misty''"
  "musicBuffersRef unbufferedHeld ''Misty'' = Some (demoStems\<lparr> other := None \<rparr>)"
  "wall unbufferedHeld = 12000"
  by (simp_all add: unbufferedHeld_def unbufferedSession_def initialWorld_def clockBuffer_def
      engine_defs)

theorem release_without_buffers_witness:
  "errorMessage (gameLoop 0 unbufferedHeld) = ''Failed to load music: Misty''
   \<and> stage (gameLoop 0 unbufferedHeld) = Stage1
   \<and> gauge (stateRef (gameLoop 0 unbufferedHeld)) = 100
   \<and> startTime (audioRef (gameLoop 0 unbufferedHeld)) = 0
   \<and> timers (gameLoop 0 unbufferedHeld) = []
   \<and> otherSrc (audioRef (gameLoop 0 unbufferedHeld)) = None"
proof -
  have g: "gauge (stateRef (inputLogic unbufferedHeld)) = 100"
    by (simp add: gauge_inputLogic unbufferedHeld_eval clamp_def CONFIG_def)
  have h: "ctx (audioRef unbufferedHeld) = Some 0" "gainClock (audioRef unbufferedHeld) = Some newGain"
      "clockSrc (audioRef unbufferedHeld) = Some 0" "isLooping (stateRef unbufferedHeld)"
      "100 \<le> gauge (stateRef (inputLogic unbufferedHeld))"
      "gainsReady unbufferedHeld" "\<not> stemsLoaded unbufferedHeld"
    by (simp_all add: g unbufferedHeld_eval gainsReady_def stemsLoaded_def)
  note T = release_without_buffers [OF h, of 0]
  show ?thesis
    using T by (simp add: g unbufferedHeld_eval)
qed

text \<open>
  C6 as stated fails in its last part: there is no scheduled event to keep, and no retry.
  In the example session whose accompaniment did not load, the frame at 12 s saturates
  the gauge: the loop is released, the message is set and no timer is pending. The folder
  is then loaded with its accompaniment, so that a mix start would find its buffers; two
  frames and thirty seconds later still no timer is pending, no stem source exists, the
  stage is 1 and the status reads \<^verbatim>\<open>SYNC COMPLETE...\<close>. The gauge is at 100 and
  \<^verbatim>\<open>isLooping\<close> is off, and \<^verbatim>\<open>gameLoop\<close> calls \<^verbatim>\<open>releaseLoop\<close> only while it is on.
\<close>

theorem no_retry_after_loading_counterexample:
  "errorMessage unbufferedReleased = ''Failed to load music: Misty''
   \<and> timers unbufferedReleased = []
   \<and> \<not> isLooping (stateRef unbufferedReleased)
   \<and> loop (sources unbufferedReleased 0) = False
   \<and> gainsReady loadedLater \<and> stemsLoaded loadedLater
   \<and> timers (run [Frame 1, Elapse 30, Frame 2] loadedLater) = []
   \<and> wall (run [Frame 1, Elapse 30, Frame 2] loadedLater) = 42000
   \<and> gauge (stateRef (run [Frame 1, Elapse 30, Frame 2] loadedLater)) = 100
   \<and> stage (run [Frame 1, Elapse 30, Frame 2] loadedLater) = Stage1
   \<and> \<not> vocalActive (stateRef (run [Frame 1, Elapse 30, Frame 2] loadedLater))
   \<and> otherSrc (audioRef (run [Frame 1, Elapse 30, Frame 2] loadedLater)) = None
   \<and> nextSource (run [Frame 1, Elapse 30, Frame 2] loadedLater) = 1
   \<and> statusText (run [Frame 1, Elapse 30, Frame 2] loadedLater) = ''SYNC COMPLETE...''"
  by (simp add: loadedLater_def unbufferedReleased_def unbufferedHeld_def unbufferedSession_def
      gainsReady_def stemsLoaded_def demo_defs engine_defs)

subsection \<open>handleStop\<close>

lemma fadeGain_eq:
  "fadeGain now fade g =
     g\<lparr> events := filter (\<lambda>e. eventTime e < now) (events g)
                     @ [SetValueAtTime (gval g) now, LinearRampToValueAtTime 0 (now + fade)] \<rparr>"
  by (simp add: fadeGain_def cancelScheduledValues_def setValueAtTime_def linearRampToValueAtTime_def)

lemma handleStop_eq:
  assumes "ctx (audioRef w) = Some c" "gainClock (audioRef w) = Some gc"
  shows "handleStop w =
     w\<lparr> audioRef := (audioRef w)\<lparr>
            gainClock := Some (fadeGain (currentTime (contexts w c)) (fadeOutTime CONFIG) gc),
            gainOther := map_option (fadeGain (currentTime (contexts w c)) (fadeOutTime CONFIG)) (gainOther (audioRef w)),
            gainBass := map_option (fadeGain (currentTime (contexts w c)) (fadeOutTime CONFIG)) (gainBass (audioRef w)),
            gainDrums := map_option (fadeGain (currentTime (contexts w c)) (fadeOutTime CONFIG)) (gainDrums (audioRef w)),
            gainVocals := map_option (fadeGain (currentTime (contexts w c)) (fadeOutTime CONFIG)) (gainVocals (audioRef w)) \<rparr>,
        timers := timers w @ [\<lparr> due = wall w + fadeOutTime CONFIG * 1000, cb = StopReset c \<rparr>] \<rparr>"
  by (simp add: handleStop_def assms Let_def setTimeout_def)

lemma stopSource_idem: "stopSource (stopSource s) = stopSource s"
  by (simp add: stopSource_def)

lemma stopOpt_apply:
  "stopOpt r ss j = (if r = Some j then stopSource (ss j) else ss j)"
  by (cases r) (simp_all add: stopOpt_def)

lemma stopReset_sources:
  "sources (stopReset c w) j =
     (if j \<in> sourceRefs (audioRef w) then stopSource (sources w j) else sources w j)"
  by (simp add: stopReset_def stopOpt_apply sourceRefs_def stopSource_idem)

lemma stopReset_state:
  "stateRef (stopReset c w) =
     \<lparr> gauge = 0, visualGauge = 0, isLooping = True, vocalActive = False,
       isLeaning = isLeaning (stateRef w) \<rparr>"
  "stage (stopReset c w) = Stage0" "isReady (stopReset c w) = False"
  "statusText (stopReset c w) = ''DISCONNECTED''"
  "audioRef (stopReset c w) = emptyAudio"
  "cstate (contexts (stopReset c w) c) = Closed"
  "timers (stopReset c w) = timers w"
  by (simp_all add: stopReset_def)

subsection \<open>Quiet events only add timers\<close>

lemma timers_scheduleMusicAt17s:
  "\<exists>xs. timers (scheduleMusicAt17s c t w) = timers w @ xs"
proof (cases w rule: scheduleMusicAt17s_cases)
  case not_ready
  then show ?thesis by (simp add: scheduleMusicAt17s_not_ready)
next
  case not_loaded
  then show ?thesis by (simp add: scheduleMusicAt17s_not_loaded)
next
  case (loaded gO m)
  then show ?thesis by (simp add: scheduleMusicAt17s_loaded(1))
qed

lemma timers_releaseLoop: "\<exists>xs. timers (releaseLoop w) = timers w @ xs"
proof (cases "ctx (audioRef w)")
  case None
  then show ?thesis by (simp add: releaseLoop_def)
next
  case (Some c)
  show ?thesis
  proof (cases "clockSrc (audioRef w)")
    case None
    with Some show ?thesis by (simp add: releaseLoop_def)
  next
    case i: (Some i)
    show ?thesis
      unfolding releaseLoop_eq [OF Some i]
      using timers_scheduleMusicAt17s
        [of c _ "w\<lparr> sources := (sources w)(i := (sources w i)\<lparr> loop := False \<rparr>),
           stateRef := (stateRef w)\<lparr> isLooping := False \<rparr>,
           statusText := ''SYNC COMPLETE...'' \<rparr>"]
      by simp
  qed
qed

lemma timers_audioControl:
  "timers (snd (audioControl w)) = timers w \<or> timers (snd (audioControl w)) = timers (releaseLoop w)"
proof (cases "ctx (audioRef w)")
  case None
  then show ?thesis by (simp add: audioControl_def)
next
  case (Some c)
  show ?thesis
  proof (cases "gainClock (audioRef w)")
    case None
    with Some show ?thesis by (simp add: audioControl_def)
  next
    case gc: (Some g)
    show ?thesis
    proof (cases "isLooping (stateRef w)")
      case True
      with Some gc show ?thesis by (simp add: audioControl_def Let_def)
    next
      case False
      then show ?thesis using audioControl_released [of w] by simp
    qed
  qed
qed

lemma timers_gameLoop: "\<exists>xs. timers (gameLoop time w) = timers w @ xs"
proof -
  have t: "timers (gameLoop time w) = timers (snd (audioControl (inputLogic w)))"
    by (simp add: gameLoop_def visualUpdate_def split_beta)
  have i: "timers (inputLogic w) = timers w" by (simp add: inputLogic_def Let_def)
  from timers_audioControl [of "inputLogic w"] timers_releaseLoop [of "inputLogic w"]
  show ?thesis unfolding t i by auto
qed

lemma timers_step_quiet: "quiet e \<Longrightarrow> \<exists>xs. timers (step e w) = timers w @ xs"
proof (cases e)
  case (Frame t)
  then show ?thesis using timers_gameLoop [of t w] by simp
qed (simp_all add: handleDown_def handleUp_def elapse_def)

lemma timers_run_quiet: "list_all quiet es \<Longrightarrow> \<exists>xs. timers (run es w) = timers w @ xs"
proof (induction es arbitrary: w)
  case Nil
  then show ?case by simp
next
  case (Cons e es)
  then have q: "quiet e" "list_all quiet es" by simp_all
  from timers_step_quiet [OF q(1), of w] obtain xs where 1: "timers (step e w) = timers w @ xs" ..
  from Cons.IH [OF q(2), of "step e w"] obtain ys where
    2: "timers (run es (step e w)) = timers (step e w) @ ys" ..
  from 1 2 show ?case by simp
qed

text \<open>
  C7. With a context and a clock gain, \<^verbatim>\<open>handleStop\<close> gives every gain node that exists
  (clock, accompaniment, bass, drums, vocals) the same schedule: the automation from now
  on is cancelled, the gain is anchored at the value it reads now, and a linear ramp takes
  it to 0 at \<open>now + fadeOutTime\<close>, ten seconds later. The stop itself changes nothing else
  but the pending timers, to which it adds the reset, due \<open>fadeOutTime\<close> (10000 ms) later.
  While the session runs on (frames, keys, time), the reset cannot run before the wall
  clock has advanced by these ten seconds; when it runs, it stops every source the refs
  name, closes the audio context, clears \<^verbatim>\<open>audioRef\<close> and resets the session: gauge 0,
  visual gauge 0, looping again, \<^verbatim>\<open>vocalActive\<close> off, stage 0, not ready, status
  \<^verbatim>\<open>DISCONNECTED\<close>.
\<close>

theorem stop_fades_then_resets:
  fixes w :: world and c :: nat and es :: "event list"
  defines "now \<equiv> currentTime (contexts w c)"
  defines "ramp \<equiv> (\<lambda>g. g\<lparr> events := filter (\<lambda>e. eventTime e < now) (events g)
                     @ [SetValueAtTime (gval g) now, LinearRampToValueAtTime 0 (now + 10)] \<rparr>)"
  defines "later \<equiv> run es (handleStop w)"
  defines "after \<equiv> fireTimer (length (timers w)) later"
  assumes "ctx (audioRef w) = Some c" "gainClock (audioRef w) = Some gc" "list_all quiet es"
  shows "fadeOutTime CONFIG = 10
     \<and> gainClock (audioRef (handleStop w)) = Some (ramp gc)
     \<and> gainOther (audioRef (handleStop w)) = map_option ramp (gainOther (audioRef w))
     \<and> gainBass (audioRef (handleStop w)) = map_option ramp (gainBass (audioRef w))
     \<and> gainDrums (audioRef (handleStop w)) = map_option ramp (gainDrums (audioRef w))
     \<and> gainVocals (audioRef (handleStop w)) = map_option ramp (gainVocals (audioRef w))
     \<and> timers (handleStop w) = timers w @ [\<lparr> due = wall w + 10000, cb = StopReset c \<rparr>]
     \<and> stateRef (handleStop w) = stateRef w \<and> sources (handleStop w) = sources w
     \<and> contexts (handleStop w) = contexts w \<and> stage (handleStop w) = stage w
     \<and> isReady (handleStop w) = isReady w
     \<and> (wall later < wall w + 10000 \<longrightarrow> after = later)
     \<and> (wall w + 10000 \<le> wall later \<longrightarrow>
          gauge (stateRef after) = 0 \<and> visualGauge (stateRef after) = 0
          \<and> isLooping (stateRef after) \<and> \<not> vocalActive (stateRef after)
          \<and> stage after = Stage0 \<and> \<not> isReady after \<and> statusText after = ''DISCONNECTED''
          \<and> audioRef after = emptyAudio
          \<and> cstate (contexts after c) = Closed
          \<and> (\<forall>j. sources after j =
                (if j \<in> sourceRefs (audioRef later) then stopSource (sources later j)
                 else sources later j)))"
proof -
  define T where "T = \<lparr> due = wall w + 10000, cb = StopReset c \<rparr>"
  have F: "fadeOutTime CONFIG = 10" by (simp add: CONFIG_def)
  have r: "fadeGain now (fadeOutTime CONFIG) = ramp"
    unfolding ramp_def F by (rule ext) (simp add: fadeGain_eq)
  note H = handleStop_eq [OF assms(5,6), folded now_def, unfolded r]
  have hs: "gainClock (audioRef (handleStop w)) = Some (ramp gc)"
      "gainOther (audioRef (handleStop w)) = map_option ramp (gainOther (audioRef w))"
      "gainBass (audioRef (handleStop w)) = map_option ramp (gainBass (audioRef w))"
      "gainDrums (audioRef (handleStop w)) = map_option ramp (gainDrums (audioRef w))"
      "gainVocals (audioRef (handleStop w)) = map_option ramp (gainVocals (audioRef w))"
      "timers (handleStop w) = timers w @ [T]"
      "stateRef (handleStop w) = stateRef w" "sources (handleStop w) = sources w"
      "contexts (handleStop w) = contexts w" "stage (handleStop w) = stage w"
      "isReady (handleStop w) = isReady w"
    by (simp_all add: H F T_def)
  from timers_run_quiet [OF assms(7), of "handleStop w"] obtain xs where
    tl: "timers later = timers w @ T # xs"
    unfolding later_def [symmetric] hs(6) by auto
  have nth: "timers later ! length (timers w) = T" "length (timers w) < length (timers later)"
    by (simp_all add: tl)
  have early: "wall later < wall w + 10000 \<longrightarrow> after = later"
    unfolding after_def by (simp add: fireTimer_def nth T_def)
  have late: "after = stopReset c (later\<lparr> timers := timers w @ xs \<rparr>)"
    if "wall w + 10000 \<le> wall later"
    unfolding after_def using that by (simp add: fireTimer_def nth T_def tl)
  have reset: "wall w + 10000 \<le> wall later \<longrightarrow>
          gauge (stateRef after) = 0 \<and> visualGauge (stateRef after) = 0
          \<and> isLooping (stateRef after) \<and> \<not> vocalActive (stateRef after)
          \<and> stage after = Stage0 \<and> \<not> isReady after \<and> statusText after = ''DISCONNECTED''
          \<and> audioRef after = emptyAudio
          \<and> cstate (contexts after c) = Closed
          \<and> (\<forall>j. sources after j =
                (if j \<in> sourceRefs (audioRef later) then stopSource (sources later j)
                 else sources later j))"
  proof
    assume "wall w + 10000 \<le> wall later"
    note l = late [OF this]
    show "gauge (stateRef after) = 0 \<and> visualGauge (stateRef after) = 0
          \<and> isLooping (stateRef after) \<and> \<not> vocalActive (stateRef after)
          \<and> stage after = Stage0 \<and> \<not> isReady after \<and> statusText after = ''DISCONNECTED''
          \<and> audioRef after = emptyAudio
          \<and> cstate (contexts after c) = Closed
          \<and> (\<forall>j. sources after j =
                (if j \<in> sourceRefs (audioRef later) then stopSource (sources later j)
                 else sources later j))"
      unfolding l by (simp add: stopReset_state stopReset_sources)
  qed
  from F hs(1-5) hs(6) [unfolded T_def] hs(7-11) early reset show ?thesis
    by (intro conjI)
qed

theorem stop_fades_then_resets_witness:
  "gainClock (audioRef (handleStop demoMix)) =
     Some \<lparr> gval = 0, events = [SetTargetAtTime 1 12 0.05, SetValueAtTime 0 31,
                                  LinearRampToValueAtTime 0 41] \<rparr>
   \<and> gainOther (audioRef (handleStop demoMix)) =
     Some \<lparr> gval = 0, events = [SetValueAtTime 0 31, LinearRampToValueAtTime 0 41] \<rparr>
   \<and> timers (handleStop demoMix) = [\<lparr> due = 41000, cb = StopReset 0 \<rparr>]
   \<and> fireTimer 0 (run [Elapse 9] (handleStop demoMix)) = run [Elapse 9] (handleStop demoMix)
   \<and> gauge (stateRef (fireTimer 0 (run [Frame 0, Elapse 10] (handleStop demoMix)))) = 0
   \<and> stage (fireTimer 0 (run [Frame 0, Elapse 10] (handleStop demoMix))) = Stage0
   \<and> audioRef (fireTimer 0 (run [Frame 0, Elapse 10] (handleStop demoMix))) = emptyAudio
   \<and> cstate (contexts (fireTimer 0 (run [Frame 0, Elapse 10] (handleStop demoMix))) 0) = Closed
   \<and> stopped (sources (fireTimer 0 (run [Frame 0, Elapse 10] (handleStop demoMix))) 1)"
proof -
  have h: "ctx (audioRef demoMix) = Some 0"
      "gainClock (audioRef demoMix) = Some \<lparr> gval = 0, events = [SetTargetAtTime 1 12 0.05] \<rparr>"
    by (simp_all add: demoMix_eval demoReleased_eval)
  have q: "list_all quiet [Elapse 9]" "list_all quiet [Frame 0, Elapse 10]" by simp_all
  have e: "timers demoMix = []" "wall demoMix = 31000" "currentTime (contexts demoMix 0) = 31"
      "gainOther (audioRef demoMix) = Some \<lparr> gval = 0, events = [SetValueAtTime 1 31] \<rparr>"
    by (simp_all add: demoMix_eval demoReleased_eval)
  have w1: "wall (run [Elapse 9] (handleStop demoMix)) = 40000"
    by (simp add: elapse_def handleStop_eq [OF h] e)
  have w2: "wall (run [Frame 0, Elapse 10] (handleStop demoMix)) = 41000"
    "1 \<in> sourceRefs (audioRef (run [Frame 0, Elapse 10] (handleStop demoMix)))"
    "startedAt (sources (run [Frame 0, Elapse 10] (handleStop demoMix)) 1) = Some 31"
    by (simp_all add: demo_defs engine_defs sourceRefs_def)
  note A = stop_fades_then_resets [OF h q(1)]
  note B = stop_fades_then_resets [OF h q(2)]
  from A w1 have a: "gainClock (audioRef (handleStop demoMix)) =
     Some \<lparr> gval = 0, events = [SetTargetAtTime 1 12 0.05, SetValueAtTime 0 31,
                                  LinearRampToValueAtTime 0 41] \<rparr>"
    "gainOther (audioRef (handleStop demoMix)) =
     Some \<lparr> gval = 0, events = [SetValueAtTime 0 31, LinearRampToValueAtTime 0 41] \<rparr>"
    "timers (handleStop demoMix) = [\<lparr> due = 41000, cb = StopReset 0 \<rparr>]"
    "fireTimer 0 (run [Elapse 9] (handleStop demoMix)) = run [Elapse 9] (handleStop demoMix)"
    by (simp_all add: e)
  from B w2 have b: "gauge (stateRef (fireTimer 0 (run [Frame 0, Elapse 10] (handleStop demoMix)))) = 0"
    "stage (fireTimer 0 (run [Frame 0, Elapse 10] (handleStop demoMix))) = Stage0"
    "audioRef (fireTimer 0 (run [Frame 0, Elapse 10] (handleStop demoMix))) = emptyAudio"
    "cstate (contexts (fireTimer 0 (run [Frame 0, Elapse 10] (handleStop demoMix))) 0) = Closed"
    "sources (fireTimer 0 (run [Frame 0, Elapse 10] (handleStop demoMix))) 1
       = stopSource (sources (run [Frame 0, Elapse 10] (handleStop demoMix)) 1)"
    by (simp_all add: e)
  from b(5) w2(3) have c: "stopped (sources (fireTimer 0 (run [Frame 0, Elapse 10] (handleStop demoMix))) 1)"
    by (simp add: stopSource_def)
  from a b(1-4) c show ?thesis by (intro conjI)
qed

subsection \<open>After the reset\<close>

lemma gameLoop_no_context:
  assumes "ctx (audioRef w) = None"
  shows "audioRef (gameLoop time w) = audioRef w" "timers (gameLoop time w) = timers w"
    "stage (gameLoop time w) = stage w"
    "vocalActive (stateRef (gameLoop time w)) = vocalActive (stateRef w)"
proof -
  have a: "audioControl (inputLogic w) = (0, inputLogic w)"
    using assms by (simp add: audioControl_def inputLogic_frame)
  have il: "timers (inputLogic w) = timers w" "stage (inputLogic w) = stage w"
    by (simp_all add: inputLogic_def Let_def)
  show "audioRef (gameLoop time w) = audioRef w" "timers (gameLoop time w) = timers w"
    "stage (gameLoop time w) = stage w"
    "vocalActive (stateRef (gameLoop time w)) = vocalActive (stateRef w)"
    by (simp_all add: gameLoop_def a visualUpdate_def inputLogic_frame il)
qed

lemma demoStopped_eval:
  "stateRef demoStopped =
     \<lparr> gauge = 0, visualGauge = 0, isLooping = True, vocalActive = False, isLeaning = True \<rparr>"
  "stage demoStopped = Stage0" "audioRef demoStopped = emptyAudio"
  "timers demoStopped = [\<lparr> due = 31000, cb = ActivateMix \<rparr>]"
  "wall demoStopped = 22000" "isReady demoStopped = False"
  by (simp_all add: demoStopped_def demoReleased_eval handleStop_def setTimeout_def Let_def
      elapse_def fireTimer_def stopReset_def CONFIG_def)

lemma handleStop_keeps_timers: "\<exists>xs. timers (handleStop w) = timers w @ xs"
proof (cases "ctx (audioRef w)")
  case None
  then show ?thesis by (simp add: handleStop_def)
next
  case (Some c')
  show ?thesis
  proof (cases "gainClock (audioRef w)")
    case None
    with Some show ?thesis by (simp add: handleStop_def)
  next
    case gc: (Some g)
    show ?thesis by (simp add: handleStop_eq [OF Some gc])
  qed
qed

lemma reset_keeps_other_timers:
  assumes "i < length (timers w)" "cb (timers w ! i) = StopReset c" "due (timers w ! i) \<le> wall w"
  shows "timers (fireTimer i w) = take i (timers w) @ drop (Suc i) (timers w)"
  using assms by (simp add: fireTimer_def stopReset_def)

lemma activation_fires_in_any_state:
  assumes "i < length (timers w)" "cb (timers w ! i) = ActivateMix" "due (timers w ! i) \<le> wall w"
  shows "stage (fireTimer i w) = Stage2" "vocalActive (stateRef (fireTimer i w))"
    "gauge (stateRef (fireTimer i w)) = 0" "audioRef (fireTimer i w) = audioRef w"
  using assms by (simp_all add: fireTimer_def activateMix_def)

text \<open>
  C2 does not hold of the code. \<^verbatim>\<open>handleStop\<close> keeps no handle of a \<^verbatim>\<open>setTimeout\<close> and
  calls \<^verbatim>\<open>clearTimeout\<close> nowhere, so the callback of \<^verbatim>\<open>scheduleMusicAt17s\<close> outlives the
  reset that is to put all state back to the initial stage (lemmas
  \<open>handleStop_keeps_timers\<close>, \<open>reset_keeps_other_timers\<close>), and it runs in whatever state
  it finds (\<open>activation_fires_in_any_state\<close>). In the example session the loop is released
  at 12 s and the mix start is scheduled for 31 s; the stop is requested at once and its
  reset runs at 22 s, leaving stage 0, \<^verbatim>\<open>vocalActive\<close> off, the gauge at 0, no audio graph,
  and the callback still pending. Two frames later the gauge reads 0.3. At 31 s the old
  callback runs: the gauge is zeroed again, \<^verbatim>\<open>vocalActive\<close> is set and the stage is 2, with
  no audio context and no new session.
\<close>

theorem stale_activation_after_stop:
  "timers demoReleased = [\<lparr> due = 31000, cb = ActivateMix \<rparr>]
   \<and> timers (handleStop demoReleased)
        = [\<lparr> due = 31000, cb = ActivateMix \<rparr>, \<lparr> due = 22000, cb = StopReset 0 \<rparr>]
   \<and> stage demoStopped = Stage0 \<and> \<not> vocalActive (stateRef demoStopped)
   \<and> gauge (stateRef demoStopped) = 0 \<and> audioRef demoStopped = emptyAudio
   \<and> timers demoStopped = [\<lparr> due = 31000, cb = ActivateMix \<rparr>]
   \<and> gauge (stateRef (run [Frame 0, Frame 0, Elapse 9] demoStopped)) = 3/10
   \<and> stage (run [Frame 0, Frame 0, Elapse 9] demoStopped) = Stage0
   \<and> wall (run [Frame 0, Frame 0, Elapse 9] demoStopped) = 31000
   \<and> gauge (stateRef (run [Frame 0, Frame 0, Elapse 9, Timeout 0] demoStopped)) = 0
   \<and> vocalActive (stateRef (run [Frame 0, Frame 0, Elapse 9, Timeout 0] demoStopped))
   \<and> stage (run [Frame 0, Frame 0, Elapse 9, Timeout 0] demoStopped) = Stage2
   \<and> ctx (audioRef (run [Frame 0, Frame 0, Elapse 9, Timeout 0] demoStopped)) = None"
proof -
  have a: "timers (handleStop demoReleased)
        = [\<lparr> due = 31000, cb = ActivateMix \<rparr>, \<lparr> due = 22000, cb = StopReset 0 \<rparr>]"
    by (simp add: handleStop_def Let_def setTimeout_def demoReleased_eval CONFIG_def)
  have w: "run [Frame 0, Frame 0, Elapse 9] demoStopped
            = elapse 9 (gameLoop 0 (gameLoop 0 demoStopped))" by simp
  have n: "ctx (audioRef demoStopped) = None" "ctx (audioRef (gameLoop 0 demoStopped)) = None"
    by (simp_all add: gameLoop_no_context demoStopped_eval emptyAudio_def)
  have g: "gauge (stateRef (gameLoop 0 (gameLoop 0 demoStopped))) = 3/10"
    by (simp add: gauge_gameLoop gauge_inputLogic isLeaning_gameLoop vocalActive_gameLoop
        demoStopped_eval clamp_def CONFIG_def)
  have f: "timers (gameLoop 0 (gameLoop 0 demoStopped)) = [\<lparr> due = 31000, cb = ActivateMix \<rparr>]"
      "stage (gameLoop 0 (gameLoop 0 demoStopped)) = Stage0"
      "audioRef (gameLoop 0 (gameLoop 0 demoStopped)) = emptyAudio"
    by (simp_all add: gameLoop_no_context n demoStopped_eval emptyAudio_def)
  have wl: "wall (gameLoop 0 (gameLoop 0 demoStopped)) = 22000"
    by (simp add: gameLoop_def visualUpdate_def split_beta audioControl_def inputLogic_def Let_def
        n demoStopped_eval emptyAudio_def)
  have e: "gauge (stateRef (run [Frame 0, Frame 0, Elapse 9] demoStopped)) = 3/10"
      "stage (run [Frame 0, Frame 0, Elapse 9] demoStopped) = Stage0"
      "wall (run [Frame 0, Frame 0, Elapse 9] demoStopped) = 31000"
      "timers (run [Frame 0, Frame 0, Elapse 9] demoStopped) = [\<lparr> due = 31000, cb = ActivateMix \<rparr>]"
      "audioRef (run [Frame 0, Frame 0, Elapse 9] demoStopped) = emptyAudio"
    unfolding w by (simp_all add: elapse_def g f wl)
  have r: "run [Frame 0, Frame 0, Elapse 9, Timeout 0] demoStopped
            = fireTimer 0 (run [Frame 0, Frame 0, Elapse 9] demoStopped)" by simp
  have z: "gauge (stateRef (run [Frame 0, Frame 0, Elapse 9, Timeout 0] demoStopped)) = 0"
      "vocalActive (stateRef (run [Frame 0, Frame 0, Elapse 9, Timeout 0] demoStopped))"
      "stage (run [Frame 0, Frame 0, Elapse 9, Timeout 0] demoStopped) = Stage2"
      "ctx (audioRef (run [Frame 0, Frame 0, Elapse 9, Timeout 0] demoStopped)) = None"
    unfolding r using e by (simp_all add: fireTimer_def activateMix_def emptyAudio_def)
  from a e(1-3) z show ?thesis
    by (simp add: demoReleased_eval demoStopped_eval)
qed

subsection \<open>The second source file\<close>

text \<open>On [0,100] the stem volumes of \<^verbatim>\<open>src/unnamed/part_000\<close> are those of
  \<^verbatim>\<open>src/App.tsx\<close>, so what is proved of the bands above holds for both files.\<close>

lemma stemVolumes_part000_eq:
  "0 \<le> g \<Longrightarrow> g \<le> 100 \<Longrightarrow> stemVolumes_part000 g = stemVolumes g"
  by (simp add: stemVolumes_part000_def stemVolumes_def Let_def)

text \<open>Its mix branch drives the accompaniment gain toward 1.0 on every frame, as it does
  the clock gain.\<close>

lemma mixBranch_part000_held_gains:
  "gainClock (mixBranch_part000 now g a) = map_option (setTargetAtTime 1.0 now 0.05) (gainClock a)"
  "gainOther (mixBranch_part000 now g a) = map_option (setTargetAtTime 1.0 now 0.05) (gainOther a)"
  by (simp_all add: mixBranch_part000_def Let_def split_beta)

text \<open>Its mix start is 17 seconds after the session start, or now when that has passed:
  no loop boundary enters.\<close>

lemma musicStart_part000_eq:
  "musicStart_part000 start now = max now (start + 17)"
  by (simp add: musicStart_part000_def Let_def CONFIG_def max_def)

end
